theory Spec2Isabelle
  imports Complex_Main "HOL-Library.AList"
begin

section \<open>Admission database: \<open>cloud_controller/assessment/model.py\<close>\<close>

text \<open>
  \<open>AppStatus\<close> is the \<open>IntEnum\<close> of the source; \<open>AppEntry\<close> is the class with the
  fields \<open>architecture\<close>, \<open>_name\<close> and \<open>status\<close>. The architecture is a protobuf message
  the database never looks into, so it is a type parameter; the field holds \<open>None\<close> after
  publication, hence the option.
\<close>

datatype AppStatus = RECEIVED | REJECTED | ACCEPTED | PUBLISHED

record 'a AppEntry =
  architecture :: "'a option"
  entry_name :: string
  status :: AppStatus

text \<open>
  \<open>AppDatabase\<close>: \<open>_apps\<close> is a Python dict, iterated in insertion order by
  \<open>publish_new_architectures\<close>, so it is an association list (keys in insertion order).
  \<open>probes_by_alias\<close> maps every generated alias to \<open>None\<close> (the value the source stores),
  so a key that is present has the value \<open>Some None\<close>.
\<close>

record ('a, 'p) AppDatabase =
  apps :: "(string \<times> 'a AppEntry) list"
  app_removal_cache :: "string list"
  probes_by_alias :: "string \<rightharpoonup> 'p option"

text \<open>
  The loop of \<open>publish_new_architectures\<close> over \<open>self._apps.values()\<close>: the accumulator is
  the list \<open>architectures\<close>; an entry whose status is \<open>ACCEPTED\<close> is appended, then its
  status and architecture are overwritten in place.
\<close>

fun publish_loop ::
  "(string \<times> 'a AppEntry) list \<Rightarrow> 'a option list \<Rightarrow> 'a option list \<times> (string \<times> 'a AppEntry) list"
where
  "publish_loop [] architectures = (architectures, [])"
| "publish_loop ((k, app) # rest) architectures =
     (if status app = ACCEPTED then
        (case publish_loop rest (architectures @ [architecture app]) of
           (res, rest') \<Rightarrow> (res, (k, app\<lparr>status := PUBLISHED, architecture := None\<rparr>) # rest'))
      else
        (case publish_loop rest architectures of
           (res, rest') \<Rightarrow> (res, (k, app) # rest')))"

definition publish_new_architectures ::
  "('a, 'p) AppDatabase \<Rightarrow> 'a option list \<times> ('a, 'p) AppDatabase"
where
  "publish_new_architectures db =
     (case publish_loop (apps db) [] of (res, apps') \<Rightarrow> (res, db\<lparr>apps := apps'\<rparr>))"

text \<open>What one entry looks like after the call.\<close>

definition published_entry :: "'a AppEntry \<Rightarrow> 'a AppEntry" where
  "published_entry app =
     (if status app = ACCEPTED then app\<lparr>status := PUBLISHED, architecture := None\<rparr> else app)"

subsection \<open>Alias generation\<close>

text \<open>
  \<open>string.ascii_uppercase\<close>, and \<open>random.choice\<close>. The random generator is an input of the
  model: \<open>rnd n\<close> is the raw number behind the \<open>n\<close>-th draw, and the draw picks the element
  at index \<open>rnd n mod len(seq)\<close>, so every sequence of picks can be produced. \<open>pos\<close> counts
  the draws made so far and is threaded through.
\<close>

definition ascii_uppercase :: string where
  "ascii_uppercase = ''ABCDEFGHIJKLMNOPQRSTUVWXYZ''"

definition choice :: "(nat \<Rightarrow> nat) \<Rightarrow> nat \<Rightarrow> 'a list \<Rightarrow> 'a" where
  "choice rnd n seq = seq ! (rnd n mod length seq)"

text \<open>\<open>''.join(random.choice(string.ascii_uppercase) for _ in range(4))\<close>\<close>

definition random_id :: "(nat \<Rightarrow> nat) \<Rightarrow> nat \<Rightarrow> string" where
  "random_id rnd pos = map (\<lambda>i. choice rnd (pos + i) ascii_uppercase) [0..<4]"

text \<open>
  The loop \<open>while id_ in self.probes_by_alias: id_ = ...\<close>. Nothing bounds the number of
  rounds (with all \<open>26 ^ 4\<close> aliases taken it never ends), so the loop is a partial function:
  \<open>None\<close> is the run that never returns.
\<close>

partial_function (option) alias_loop ::
  "(nat \<Rightarrow> nat) \<Rightarrow> (string \<rightharpoonup> 'p option) \<Rightarrow> string \<Rightarrow> nat \<Rightarrow> (string \<times> nat) option"
where
  "alias_loop rnd m ident pos =
     (if ident \<in> dom m then alias_loop rnd m (random_id rnd pos) (pos + 4) else Some (ident, pos))"

text \<open>
  \<open>AppDatabase._generate_alias\<close>: the first candidate, the loop, then
  \<open>self.probes_by_alias[id_] = None\<close>. The result is the alias, the new position in the
  random sequence and the updated database.
\<close>

definition generate_alias ::
  "(nat \<Rightarrow> nat) \<Rightarrow> nat \<Rightarrow> ('a, 'p) AppDatabase \<Rightarrow> (string \<times> nat \<times> ('a, 'p) AppDatabase) option"
where
  "generate_alias rnd pos db =
     (case alias_loop rnd (probes_by_alias db) (random_id rnd pos) (pos + 4) of
        None \<Rightarrow> None
      | Some (ident, pos') \<Rightarrow>
          Some (ident, pos', db\<lparr>probes_by_alias := (probes_by_alias db)(ident \<mapsto> None)\<rparr>))"

text \<open>\<open>n\<close> calls of \<open>_generate_alias\<close> in a row on the same database, as \<open>add_app\<close> makes
  them for the probes of an architecture; the aliases in the order they were returned.\<close>

fun generate_aliases ::
  "nat \<Rightarrow> (nat \<Rightarrow> nat) \<Rightarrow> nat \<Rightarrow> ('a, 'p) AppDatabase \<Rightarrow>
     (string list \<times> nat \<times> ('a, 'p) AppDatabase) option"
where
  "generate_aliases 0 rnd pos db = Some ([], pos, db)"
| "generate_aliases (Suc n) rnd pos db =
     (case generate_alias rnd pos db of
        None \<Rightarrow> None
      | Some (a, pos', db') \<Rightarrow>
          (case generate_aliases n rnd pos' db' of
             None \<Rightarrow> None
           | Some (as, pos'', db'') \<Rightarrow> Some (a # as, pos'', db'')))"

definition well_formed_alias :: "string \<Rightarrow> bool" where
  "well_formed_alias a \<longleftrightarrow> length a = 4 \<and> set a \<subseteq> set ascii_uppercase"

section \<open>Knowledge model\<close>

text \<open>
  The Python exceptions the modelled code can raise. A function that can raise returns
  \<open>error + result\<close>, with \<open>Inl\<close> for the exception.
\<close>

datatype error = AssertionError | KeyError | AttributeError | UnboundLocalError | IndexError

text \<open>
  Modelled from the spec: \<open>cloud_controller/knowledge/model.py\<close> (\<open>CompinPhase\<close>,
  \<open>Compin\<close>, \<open>ManagedCompin\<close>, \<open>UnmanagedCompin\<close>, \<open>CloudState\<close>, \<open>Component\<close>) is not
  among the sources. The spec lists the phases in this order and calls them monotone
  non-decreasing; the source compares them with \<open><\<close>, so \<open>phase_value\<close> is the integer
  behind each phase.
\<close>

datatype CompinPhase = CREATING | INIT | READY | FINALIZING | FINISHED | FAILED

fun phase_value :: "CompinPhase \<Rightarrow> nat" where
  "phase_value CREATING = 1"
| "phase_value INIT = 2"
| "phase_value READY = 3"
| "phase_value FINALIZING = 4"
| "phase_value FINISHED = 5"
| "phase_value FAILED = 6"

text \<open>
  Modelled from the spec: a compin is a Python object that the tasks and the analyzer
  mutate in place and that other compins refer to (a client's dependencies are resolved to
  concrete ManagedCompins). Objects live in a store; a reference is an address. The fields
  are the ones the sources read or write: the names of the application and the component
  (\<open>compin.component.application.name\<close>, \<open>compin.component.name\<close>), \<open>id\<close>, whether the
  object is a ManagedCompin (only those have a phase), \<open>phase\<close>, the \<open>force_keep\<close> marker
  and the dependencies.
\<close>

type_synonym ref = nat

record Compin =
  compin_application :: string
  compin_component :: string
  compin_id :: string
  managed :: bool
  phase :: CompinPhase
  force_keep :: bool
  dependencies :: "ref list"

type_synonym heap = "ref \<Rightarrow> Compin"

text \<open>
  Modelled from the spec: a CloudState is the indexed collection
  application \<open>\<rightarrow>\<close> component \<open>\<rightarrow>\<close> instance id \<open>\<rightarrow>\<close> compin; \<open>CloudState()\<close> is the empty one,
  and \<open>get_compin\<close> returns the compin or \<open>None\<close>.
\<close>

type_synonym CloudState = "string \<times> string \<times> string \<rightharpoonup> ref"

definition get_compin :: "CloudState \<Rightarrow> string \<Rightarrow> string \<Rightarrow> string \<Rightarrow> ref option" where
  "get_compin state app component ident = state (app, component, ident)"

text \<open>
  Modelled from the spec: \<open>list_dependencies\<close> returns the compins a compin depends on,
  \<open>set_force_keep\<close> sets the marker of the object it is called on.
\<close>

definition list_dependencies :: "heap \<Rightarrow> ref \<Rightarrow> ref list" where
  "list_dependencies h r = dependencies (h r)"

definition set_force_keep :: "ref \<Rightarrow> heap \<Rightarrow> heap" where
  "set_force_keep r h = h(r := (h r)\<lparr>force_keep := True\<rparr>)"

text \<open>
  Modelled from the spec: requirements, probes, components and applications. A probe
  knows its component (\<open>probe.component.id\<close>), a component its application
  (\<open>component.application.name\<close>); the back references are kept as the id and the name
  they are read for. \<open>app.components\<close> is a dict, of which the sources iterate the values.
\<close>

datatype Requirement =
    TimeContract (percentile: real) (time: real)
  | ThroughputContract (mean_request_time: real)

record Probe =
  probe_alias :: string
  probe_component_id :: string
  requirements :: "Requirement list"

record Component =
  application_name :: string
  component_name :: string
  component_id :: string
  probes :: "Probe list"

record Application =
  app_name :: string
  components :: "Component list"
  is_complete :: bool

text \<open>
  Modelled from the spec: of the Knowledge, the analyzer reads the actual state and
  \<open>list_new_clients()\<close>, the compins of the clients that connected since the last cycle.
\<close>

record Knowledge =
  actual_state :: CloudState
  new_clients :: "ref list"

section \<open>Middleware tasks: \<open>cloud_controller/tasks/middleware.py\<close>\<close>

record FinalizeInstanceTask =
  task_component :: Component
  task_instance_id :: string

text \<open>
  \<open>FinalizeInstanceTask.update_model\<close>. The lookup passes \<open>self._component.id\<close> as the
  instance id, as the source does. \<open>get_compin\<close> returning \<open>None\<close>, or an object without a
  phase, makes \<open>compin.phase\<close> raise AttributeError.
\<close>

definition update_model :: "FinalizeInstanceTask \<Rightarrow> CloudState \<Rightarrow> heap \<Rightarrow> error + heap" where
  "update_model task state h =
     (case get_compin state
             (application_name (task_component task))
             (component_name (task_component task))
             (component_id (task_component task)) of
        None \<Rightarrow> Inl AttributeError
      | Some compin \<Rightarrow>
          if \<not> managed (h compin) then Inl AttributeError
          else if phase_value (phase (h compin)) < phase_value FINALIZING
            then Inr (h(compin := (h compin)\<lparr>phase := FINALIZING\<rparr>))
            else Inr h)"

section \<open>Analyzer: \<open>cloud_controller/analysis/analyzer.py\<close>\<close>

text \<open>
  \<open>Analyzer._mark_force_keep_compins\<close>: for every new client, the compin with the same
  application, component and id is looked up in the desired state; when it is there, each
  of its dependencies is marked.
\<close>

fun mark_force_keep_compins :: "ref list \<Rightarrow> CloudState \<Rightarrow> heap \<Rightarrow> heap" where
  "mark_force_keep_compins [] desired_state h = h"
| "mark_force_keep_compins (client # rest) desired_state h =
     (case get_compin desired_state
             (compin_application (h client)) (compin_component (h client)) (compin_id (h client)) of
        None \<Rightarrow> mark_force_keep_compins rest desired_state h
      | Some compin \<Rightarrow>
          mark_force_keep_compins rest desired_state
            (fold set_force_keep (list_dependencies h compin) h))"

text \<open>
  The analyzer's own fields. \<open>_longterm_result_future\<close> is \<open>None\<close> or the handle of the
  task given to the thread pool. The pool is the number of tasks submitted to it so far;
  \<open>apply_async\<close> returns the next handle.
\<close>

record Analyzer =
  last_desired_state :: CloudState
  longterm_result_future :: "nat option"

text \<open>\<open>Analyzer.__init__\<close>: \<open>_last_desired_state = CloudState()\<close>, no future.\<close>

definition Analyzer_init :: Analyzer where
  "Analyzer_init = \<lparr>last_desired_state = Map.empty, longterm_result_future = None\<rparr>"

text \<open>
  What one call of \<open>find_new_assignment\<close> gets from outside: the value of
  \<open>solver.find_assignment()\<close> (\<open>None\<close>: no desired state found in time) and, for each
  handle, what \<open>ready()\<close> and \<open>get()\<close> of the asynchronous result answer at this moment.
  The store passed in holds the objects of the state the solver or the long-term search
  built.
\<close>

record Cycle =
  solver_result :: "CloudState option"
  future_ready :: "nat \<Rightarrow> bool"
  future_get :: "nat \<Rightarrow> CloudState option"

text \<open>
  \<open>Analyzer.find_new_assignment\<close>. The result is the returned desired state, the analyzer
  and the pool after the call, and the store (only \<open>force_keep\<close> markers change).
\<close>

definition find_new_assignment ::
  "Knowledge \<Rightarrow> Cycle \<Rightarrow> Analyzer \<Rightarrow> nat \<Rightarrow> heap \<Rightarrow> CloudState \<times> Analyzer \<times> nat \<times> heap"
where
  "find_new_assignment knowledge cycle analyzer pool h =
     (let (desired_state, analyzer1, pool1) =
            (case solver_result cycle of
               None \<Rightarrow>
                 (case longterm_result_future analyzer of
                    Some future \<Rightarrow>
                      if future_ready cycle future
                      then (future_get cycle future, analyzer\<lparr>longterm_result_future := None\<rparr>, pool)
                      else (None, analyzer, pool)
                  | None \<Rightarrow> (None, analyzer\<lparr>longterm_result_future := Some pool\<rparr>, pool + 1))
             | Some s \<Rightarrow> (Some s, analyzer, pool));
          desired_state2 =
            (case desired_state of None \<Rightarrow> last_desired_state analyzer1 | Some s \<Rightarrow> s);
          h' = mark_force_keep_compins (new_clients knowledge) desired_state2 h
      in (desired_state2, analyzer1\<lparr>last_desired_state := desired_state2\<rparr>, pool1, h'))"

text \<open>
  The only change the marking may make to a store: an object is as it was, or as it was
  with \<open>force_keep\<close> set.
\<close>

definition marks_only :: "heap \<Rightarrow> heap \<Rightarrow> bool" where
  "marks_only h h' \<longleftrightarrow> (\<forall>r. h' r = h r \<or> h' r = (h r)\<lparr>force_keep := True\<rparr>)"

section \<open>Performance data aggregator:
  \<open>cloud_controller/aggregator/performance_data_aggregator.py\<close>\<close>

text \<open>
  \<open>DEFAULT_HARDWARE_ID\<close> and \<open>STATISTICAL_PREDICTION_ENABLED\<close> are constants of the package
  (\<open>cloud_controller/__init__.py\<close>, not among the sources): parameters of the model.
\<close>

record Config =
  DEFAULT_HARDWARE_ID :: string
  STATISTICAL_PREDICTION_ENABLED :: bool

text \<open>
  The collaborators of the aggregator are not among the sources. The measurement store
  (\<open>MeasurementAggregator\<close>) and the statistical predictor (\<open>MultiPredictor\<close>) are taken as
  they are called: a record of the functions the aggregator uses, with the arguments in
  the order (\<open>probe_name\<close>, \<open>time_limit\<close>, \<open>percentile\<close>), (\<open>probe_name\<close>,
  \<open>max_mean_time\<close>), (\<open>hw_id\<close>, \<open>combination\<close>, \<open>time_limit\<close>, \<open>percentile\<close>) and
  (\<open>hw_id\<close>, \<open>combination\<close>, \<open>max_value\<close>). Times are real numbers.
\<close>

record MeasurementAggregator =
  compose_measurement_name :: "string \<Rightarrow> string list \<Rightarrow> string"
  has_measurement :: "string \<Rightarrow> bool"
  predict_time :: "string \<Rightarrow> real \<Rightarrow> real \<Rightarrow> bool"
  predict_throughput :: "string \<Rightarrow> real \<Rightarrow> bool"

record MultiPredictor =
  multi_predict_time :: "string \<Rightarrow> string list \<Rightarrow> real \<Rightarrow> real \<Rightarrow> bool"
  multi_predict_throughput :: "string \<Rightarrow> string list \<Rightarrow> real \<Rightarrow> bool"

text \<open>
  Modelled from the spec: \<open>MeasurementAggregator.predict_throughput\<close> is not among the
  sources. The spec: a running-mean comparison, which returns whether the measured mean is
  at most the bound. \<open>mean_running_time\<close> is the stored mean of a measurement.
\<close>

definition spec_predict_throughput :: "(string \<Rightarrow> real) \<Rightarrow> string \<Rightarrow> real \<Rightarrow> bool" where
  "spec_predict_throughput mean_running_time probe_name max_mean_time \<longleftrightarrow>
     mean_running_time probe_name \<le> max_mean_time"

text \<open>
  Modelled from the spec: \<open>MultiPredictor.predict_throughput\<close> is not among the sources.
  The spec: it compares the predicted mean against the bound and returns whether the mean
  is at most the bound. \<open>predicted_mean\<close> is the predictor's estimate for a combination on
  a hardware class.
\<close>

definition spec_multi_predict_throughput ::
  "(string \<Rightarrow> string list \<Rightarrow> real) \<Rightarrow> string \<Rightarrow> string list \<Rightarrow> real \<Rightarrow> bool"
where
  "spec_multi_predict_throughput predicted_mean hw combination max_value \<longleftrightarrow>
     predicted_mean hw combination \<le> max_value"

text \<open>
  Modelled from the spec: \<open>ScenarioGenerator\<close> is not among the sources. The aggregator
  only calls \<open>increase_count(hw_id, probe, size)\<close> on it, to request a scenario for a
  controlled probe and a combination size; the generator is the count of those requests.
\<close>

type_synonym ScenarioGenerator = "string \<times> string \<times> nat \<Rightarrow> nat"

definition increase_count :: "ScenarioGenerator \<Rightarrow> string \<Rightarrow> string \<Rightarrow> nat \<Rightarrow> ScenarioGenerator" where
  "increase_count sg hw probe size' = sg((hw, probe, size') := sg (hw, probe, size') + 1)"

text \<open>
  The fields of \<open>PerformanceDataAggregator\<close>. \<open>_probes_by_component\<close> maps a component id
  to a Python set of probe aliases; the set is the list of its elements in the order in
  which Python iterates it (no duplicates), \<open>set()\<close> is \<open>[]\<close> and \<open>add\<close> is \<open>List.insert\<close>.
\<close>

record PerformanceDataAggregator =
  single_process_predictor :: MeasurementAggregator
  predictor :: MultiPredictor
  applications :: "string \<rightharpoonup> Application"
  probes_by_component :: "string \<rightharpoonup> string list"
  probes_by_id :: "string \<rightharpoonup> Probe"
  scenario_generator :: ScenarioGenerator

text \<open>The protobuf \<open>Assignment\<close>: \<open>hw_id\<close> and the list of (\<open>component_id\<close>, \<open>count\<close>).\<close>

record Assignment_pb =
  hw_id :: string
  pb_components :: "(string \<times> int) list"

subsection \<open>\<open>assignment_from_pb\<close>\<close>

text \<open>
  The dict \<open>assignment\<close> is an association list in insertion order; \<open>AList.update\<close>
  overwrites a key in place and appends a new one, as the dict does.
\<close>

fun assignment_loop ::
  "(string \<rightharpoonup> string list) \<Rightarrow> (string \<times> int) list \<Rightarrow> (string \<times> int) list \<Rightarrow> error + (string \<times> int) list"
where
  "assignment_loop pbc [] assignment = Inr assignment"
| "assignment_loop pbc ((cid, count) # rest) assignment =
     (if cid \<in> dom pbc
      then assignment_loop pbc rest (AList.update cid count assignment)
      else Inl AssertionError)"

definition assignment_from_pb ::
  "PerformanceDataAggregator \<Rightarrow> Assignment_pb \<Rightarrow> error + string \<times> (string \<times> int) list"
where
  "assignment_from_pb agg assignment_pb =
     (case assignment_loop (probes_by_component agg) (pb_components assignment_pb) [] of
        Inl e \<Rightarrow> Inl e
      | Inr assignment \<Rightarrow> Inr (hw_id assignment_pb, assignment))"

subsection \<open>\<open>_generate_combinations\<close>\<close>

text \<open>
  A generator is the list of what it yields, in order. A generator that can raise is
  \<open>error + list\<close>: the value of \<open>list(generator)\<close>. \<open>collect\<close> runs generators one after the
  other and stops at the first that raises.
\<close>

fun collect :: "(error + 'a list) list \<Rightarrow> error + 'a list" where
  "collect [] = Inr []"
| "collect (g # gs) =
     (case g of
        Inl e \<Rightarrow> Inl e
      | Inr ys \<Rightarrow> (case collect gs of Inl e \<Rightarrow> Inl e | Inr zs \<Rightarrow> Inr (ys @ zs)))"

text \<open>
  The inner generator \<open>generate_probe_combinations(probes, size, combination)\<close>; \<open>size\<close> is a
  Python int and can be negative (a count of 0 reduced by 1), \<open>range(size + 1)\<close> is then
  empty.
\<close>

fun generate_probe_combinations :: "string list \<Rightarrow> int \<Rightarrow> string list \<Rightarrow> string list list" where
  "generate_probe_combinations [] size' combination =
     (if int (length combination) = size' then [combination] else [])"
| "generate_probe_combinations (p # ps) size' combination =
     (if int (length combination) = size' then [combination]
      else concat (map (\<lambda>i. if int (length combination) + int i \<le> size'
                             then generate_probe_combinations ps size' (combination @ replicate i p)
                             else [])
                       [0..<nat (size' + 1)]))"

text \<open>
  \<open>generate_component_combinations(components, combination, main_component)\<close>;
  \<open>self._probes_by_component[component]\<close> raises KeyError for an unknown component.
\<close>

fun generate_component_combinations ::
  "(string \<rightharpoonup> string list) \<Rightarrow> (string \<times> int) list \<Rightarrow> string list \<Rightarrow> string \<Rightarrow> error + string list list"
where
  "generate_component_combinations pbc [] combination main_component = Inr [combination]"
| "generate_component_combinations pbc ((component, count) # rest) combination main_component =
     (case pbc component of
        None \<Rightarrow> Inl KeyError
      | Some ps \<Rightarrow>
          collect (map (\<lambda>probe_combination.
                          generate_component_combinations pbc rest
                            (combination @ probe_combination) main_component)
                       (generate_probe_combinations ps
                          (if component = main_component then count - 1 else count) [])))"

text \<open>The combinations whose first element is a probe of \<open>component\<close>: the body of the
  outer loop \<open>for component in assignment\<close>.\<close>

definition combinations_with_main ::
  "(string \<rightharpoonup> string list) \<Rightarrow> (string \<times> int) list \<Rightarrow> string \<Rightarrow> error + string list list"
where
  "combinations_with_main pbc assignment_tuples component =
     (case generate_component_combinations pbc assignment_tuples [] component of
        Inl e \<Rightarrow> Inl e
      | Inr full_combinations \<Rightarrow>
          collect (map (\<lambda>full_combination.
                          case pbc component of
                            None \<Rightarrow> Inl KeyError
                          | Some ps \<Rightarrow> Inr (map (\<lambda>probe_id. probe_id # full_combination) ps))
                       full_combinations))"

definition generate_combinations ::
  "(string \<rightharpoonup> string list) \<Rightarrow> (string \<times> int) list \<Rightarrow> error + string list list"
where
  "generate_combinations pbc assignment =
     collect (map (\<lambda>component. combinations_with_main pbc assignment component) (map fst assignment))"

text \<open>
  The part of a combination that one entry (\<open>component\<close>, \<open>count\<close>) of the assignment
  contributes: probes of that component (with repetition), as many as the count, one less
  for the main component.
\<close>

definition block_of :: "(string \<rightharpoonup> string list) \<Rightarrow> string \<Rightarrow> string \<times> int \<Rightarrow> string list \<Rightarrow> bool" where
  "block_of pbc main_component tuple block \<longleftrightarrow>
     (case pbc (fst tuple) of None \<Rightarrow> False | Some ps \<Rightarrow> set block \<subseteq> set ps)
     \<and> int (length block) = snd tuple - (if fst tuple = main_component then 1 else 0)"

subsection \<open>\<open>Predict\<close>\<close>

text \<open>
  The body of the loop over \<open>probe.requirements\<close> in \<open>Predict\<close>: which predictor is asked,
  and with which arguments.
\<close>

definition requirement_prediction ::
  "MeasurementAggregator \<Rightarrow> MultiPredictor \<Rightarrow> bool \<Rightarrow> string \<Rightarrow> string \<Rightarrow> string list \<Rightarrow>
     Requirement \<Rightarrow> bool"
where
  "requirement_prediction spp mp measured measurement hw combination requirement =
     (case requirement of
        TimeContract pct limit \<Rightarrow>
          if measured then predict_time spp measurement limit pct
          else multi_predict_time mp hw combination limit pct
      | ThroughputContract mean_limit \<Rightarrow>
          if measured then predict_throughput spp measurement mean_limit
          else multi_predict_throughput mp hw combination mean_limit)"

text \<open>The loop over the requirements: \<open>False\<close> when it leaves at a failed prediction.\<close>

fun requirements_loop ::
  "MeasurementAggregator \<Rightarrow> MultiPredictor \<Rightarrow> bool \<Rightarrow> string \<Rightarrow> string \<Rightarrow> string list \<Rightarrow>
     Requirement list \<Rightarrow> bool"
where
  "requirements_loop spp mp measured measurement hw combination [] = True"
| "requirements_loop spp mp measured measurement hw combination (requirement # rest) =
     (if \<not> requirement_prediction spp mp measured measurement hw combination requirement
      then False
      else requirements_loop spp mp measured measurement hw combination rest)"

text \<open>
  The loop over the combinations. \<open>combination[0]\<close> raises IndexError on an empty list,
  \<open>self._probes_by_id[...]\<close> raises KeyError on an unknown alias. The scenario generator
  changes only where the loop returns \<open>False\<close>.
\<close>

fun predict_loop ::
  "Config \<Rightarrow> PerformanceDataAggregator \<Rightarrow> string \<Rightarrow> string list list \<Rightarrow>
     error + bool \<times> ScenarioGenerator"
where
  "predict_loop cfg agg hw [] = Inr (True, scenario_generator agg)"
| "predict_loop cfg agg hw (combination # rest) =
     (let measurement = compose_measurement_name (single_process_predictor agg) hw combination;
          measured = has_measurement (single_process_predictor agg) measurement
      in if \<not> STATISTICAL_PREDICTION_ENABLED cfg \<and> \<not> measured then
           (case combination of
              [] \<Rightarrow> Inl IndexError
            | controlled # others \<Rightarrow>
                Inr (False, increase_count (scenario_generator agg) hw controlled (length combination)))
         else
           (case combination of
              [] \<Rightarrow> Inl IndexError
            | controlled # others \<Rightarrow>
                (case probes_by_id agg controlled of
                   None \<Rightarrow> Inl KeyError
                 | Some probe \<Rightarrow>
                     if requirements_loop (single_process_predictor agg) (predictor agg)
                          measured measurement hw combination (requirements probe)
                     then predict_loop cfg agg hw rest
                     else Inr (False,
                            increase_count (scenario_generator agg) hw controlled (length combination)))))"

text \<open>
  \<open>PerformanceDataAggregator.Predict\<close>: the prediction and the aggregator after the call.
  The combinations are generated lazily in the source; after \<open>assignment_from_pb\<close> has
  passed, every component of the assignment is registered and the generator cannot raise
  (lemma \<open>generate_combinations_registered\<close> below), so generating them first is the same.
\<close>

definition Predict ::
  "Config \<Rightarrow> PerformanceDataAggregator \<Rightarrow> Assignment_pb \<Rightarrow> error + bool \<times> PerformanceDataAggregator"
where
  "Predict cfg agg request =
     (if length (pb_components request) = 1 \<and> snd (hd (pb_components request)) = 1
         \<and> hw_id request = DEFAULT_HARDWARE_ID cfg
      then (if fst (hd (pb_components request)) \<in> dom (probes_by_component agg)
            then Inr (True, agg) else Inl AssertionError)
      else
        (case assignment_from_pb agg request of
           Inl e \<Rightarrow> Inl e
         | Inr (hw, assignment) \<Rightarrow>
             (case generate_combinations (probes_by_component agg) assignment of
                Inl e \<Rightarrow> Inl e
              | Inr combinations \<Rightarrow>
                  (case predict_loop cfg agg hw combinations of
                     Inl e \<Rightarrow> Inl e
                   | Inr (result, sg) \<Rightarrow> Inr (result, agg\<lparr>scenario_generator := sg\<rparr>)))))"

text \<open>
  What the loop of \<open>Predict\<close> finds out about one combination: whether a measurement is
  recorded for it, and whether every requirement of its controlled probe is predicted to
  hold. \<open>combination_clear\<close> is a combination at which the loop goes on.
\<close>

definition combination_measured :: "PerformanceDataAggregator \<Rightarrow> string \<Rightarrow> string list \<Rightarrow> bool" where
  "combination_measured agg hw combination \<longleftrightarrow>
     has_measurement (single_process_predictor agg)
       (compose_measurement_name (single_process_predictor agg) hw combination)"

definition combination_passes :: "PerformanceDataAggregator \<Rightarrow> string \<Rightarrow> string list \<Rightarrow> bool" where
  "combination_passes agg hw combination \<longleftrightarrow>
     (case probes_by_id agg (hd combination) of
        None \<Rightarrow> False
      | Some probe \<Rightarrow>
          requirements_loop (single_process_predictor agg) (predictor agg)
            (combination_measured agg hw combination)
            (compose_measurement_name (single_process_predictor agg) hw combination)
            hw combination (requirements probe))"

definition combination_clear :: "PerformanceDataAggregator \<Rightarrow> string \<Rightarrow> string list \<Rightarrow> bool" where
  "combination_clear agg hw combination \<longleftrightarrow>
     combination_measured agg hw combination \<and> combination_passes agg hw combination"

subsection \<open>\<open>JudgeApp\<close>\<close>

datatype JudgeResult = NEEDS_DATA | JudgeResult_REJECTED | MEASURED | JudgeResult_ACCEPTED

text \<open>
  The first pair of loops either returns a verdict or runs to its end. Python keeps the
  loop variable \<open>probe\<close> after the loops, bound to the last probe visited, or unbound when
  no probe was visited; the second pair of loops reads it.
\<close>

datatype scan = Verdict JudgeResult | Passed "Probe option"

fun judge_requirements :: "MeasurementAggregator \<Rightarrow> string \<Rightarrow> Requirement list \<Rightarrow> bool" where
  "judge_requirements spp measurement_name [] = True"
| "judge_requirements spp measurement_name (requirement # rest) =
     (if \<not> (case requirement of
               TimeContract pct limit \<Rightarrow> predict_time spp measurement_name limit pct
             | ThroughputContract mean_limit \<Rightarrow> predict_throughput spp measurement_name mean_limit)
      then False
      else judge_requirements spp measurement_name rest)"

fun judge_probes :: "Config \<Rightarrow> MeasurementAggregator \<Rightarrow> Probe list \<Rightarrow> Probe option \<Rightarrow> scan" where
  "judge_probes cfg spp [] probe_var = Passed probe_var"
| "judge_probes cfg spp (probe # rest) probe_var =
     (let measurement_name =
            compose_measurement_name spp (DEFAULT_HARDWARE_ID cfg) [probe_alias probe]
      in if \<not> has_measurement spp measurement_name then Verdict NEEDS_DATA
         else if judge_requirements spp measurement_name (requirements probe)
           then judge_probes cfg spp rest (Some probe)
           else Verdict JudgeResult_REJECTED)"

fun judge_components :: "Config \<Rightarrow> MeasurementAggregator \<Rightarrow> Component list \<Rightarrow> Probe option \<Rightarrow> scan" where
  "judge_components cfg spp [] probe_var = Passed probe_var"
| "judge_components cfg spp (component # rest) probe_var =
     (case judge_probes cfg spp (probes component) probe_var of
        Verdict result \<Rightarrow> Verdict result
      | Passed probe_var' \<Rightarrow> judge_components cfg spp rest probe_var')"

text \<open>
  \<open>_register_probe\<close>, and the second pair of loops. The inner one asserts that the alias is known, stores the
  probe in \<open>_probes_by_id\<close> and adds the alias to the set of the probe's component (KeyError
  when the component has no set). The outer one first writes an empty set under
  \<open>probe.component.id\<close>, where \<open>probe\<close> is still the variable left by the loops before
  (UnboundLocalError when it was never bound).
\<close>

definition register_probe :: "Probe \<Rightarrow> (string \<rightharpoonup> Probe) \<Rightarrow> (string \<rightharpoonup> Probe)" where
  "register_probe probe pbi = pbi(probe_alias probe \<mapsto> probe)"

fun reregister_probes ::
  "Probe list \<Rightarrow> (string \<rightharpoonup> string list) \<Rightarrow> (string \<rightharpoonup> Probe) \<Rightarrow> Probe option \<Rightarrow>
     error + (string \<rightharpoonup> string list) \<times> (string \<rightharpoonup> Probe) \<times> Probe option"
where
  "reregister_probes [] pbc pbi probe_var = Inr (pbc, pbi, probe_var)"
| "reregister_probes (probe # rest) pbc pbi probe_var =
     (if probe_alias probe \<notin> dom pbi then Inl AssertionError
      else
        (case pbc (probe_component_id probe) of
           None \<Rightarrow> Inl KeyError
         | Some aliases \<Rightarrow>
             reregister_probes rest
               (pbc(probe_component_id probe \<mapsto> List.insert (probe_alias probe) aliases))
               (register_probe probe pbi)
               (Some probe)))"

fun reregister_components ::
  "Component list \<Rightarrow> (string \<rightharpoonup> string list) \<Rightarrow> (string \<rightharpoonup> Probe) \<Rightarrow> Probe option \<Rightarrow>
     error + (string \<rightharpoonup> string list) \<times> (string \<rightharpoonup> Probe)"
where
  "reregister_components [] pbc pbi probe_var = Inr (pbc, pbi)"
| "reregister_components (component # rest) pbc pbi probe_var =
     (case probe_var of
        None \<Rightarrow> Inl UnboundLocalError
      | Some probe \<Rightarrow>
          (case reregister_probes (probes component) (pbc(probe_component_id probe \<mapsto> [])) pbi probe_var of
             Inl e \<Rightarrow> Inl e
           | Inr (pbc', pbi', probe_var') \<Rightarrow> reregister_components rest pbc' pbi' probe_var'))"

text \<open>
  \<open>PerformanceDataAggregator.JudgeApp\<close>, on the application built from the request
  (\<open>Application.init_from_pb\<close>): the verdict and the aggregator after the call. Where the
  source raises, the result is the exception alone; the writes made before it are not kept.
\<close>

definition JudgeApp ::
  "Config \<Rightarrow> PerformanceDataAggregator \<Rightarrow> Application \<Rightarrow> error + JudgeResult \<times> PerformanceDataAggregator"
where
  "JudgeApp cfg agg app =
     (if app_name app \<notin> dom (applications agg) then Inr (NEEDS_DATA, agg)
      else
        (case judge_components cfg (single_process_predictor agg) (components app) None of
           Verdict result \<Rightarrow> Inr (result, agg)
         | Passed probe_var \<Rightarrow>
             if \<not> is_complete app then Inr (MEASURED, agg)
             else
               (case reregister_components (components app)
                       (probes_by_component agg) (probes_by_id agg) probe_var of
                  Inl e \<Rightarrow> Inl e
                | Inr (pbc, pbi) \<Rightarrow>
                    Inr (JudgeResult_ACCEPTED,
                         agg\<lparr>applications := (applications agg)(app_name app \<mapsto> app),
                             probes_by_component := pbc,
                             probes_by_id := pbi\<rparr>))))"

text \<open>
  The probes of an application in the order in which \<open>JudgeApp\<close> visits them, and what it
  checks of one probe: a measurement in isolation on the default hardware, and every
  requirement predicted to hold from that measurement.
\<close>

definition all_probes :: "Application \<Rightarrow> Probe list" where
  "all_probes app = concat (map probes (components app))"

definition probe_measured :: "Config \<Rightarrow> MeasurementAggregator \<Rightarrow> Probe \<Rightarrow> bool" where
  "probe_measured cfg spp probe \<longleftrightarrow>
     has_measurement spp (compose_measurement_name spp (DEFAULT_HARDWARE_ID cfg) [probe_alias probe])"

definition probe_passes :: "Config \<Rightarrow> MeasurementAggregator \<Rightarrow> Probe \<Rightarrow> bool" where
  "probe_passes cfg spp probe \<longleftrightarrow>
     judge_requirements spp
       (compose_measurement_name spp (DEFAULT_HARDWARE_ID cfg) [probe_alias probe])
       (requirements probe)"

text \<open>
  An application for which the second pair of loops is known to run through: one
  component with at least one probe, every probe carrying the id of that component and an
  alias already present in \<open>_probes_by_id\<close>.
\<close>

definition single_component_app :: "PerformanceDataAggregator \<Rightarrow> Application \<Rightarrow> bool" where
  "single_component_app agg app \<longleftrightarrow>
     (\<exists>component. components app = [component] \<and> probes component \<noteq> []
        \<and> (\<forall>probe \<in> set (probes component).
              probe_component_id probe = component_id component
            \<and> probe_alias probe \<in> dom (probes_by_id agg)))"

definition probe_clear :: "Config \<Rightarrow> PerformanceDataAggregator \<Rightarrow> Probe \<Rightarrow> bool" where
  "probe_clear cfg agg probe \<longleftrightarrow>
     probe_measured cfg (single_process_predictor agg) probe
     \<and> probe_passes cfg (single_process_predictor agg) probe"

section \<open>Concrete inputs\<close>

text \<open>
  A store with a client object (every address but 2) that depends on the managed compin at
  address 2, and a desired state holding the client at address 1 and its dependency.
\<close>

definition example_store :: heap where
  "example_store =
     (\<lambda>r. \<lparr>compin_application = ''app'', compin_component = ''client'', compin_id = ''c1'',
            managed = False, phase = READY, force_keep = False, dependencies = [2]\<rparr>)
     (2 := \<lparr>compin_application = ''app'', compin_component = ''server'', compin_id = ''s1'',
            managed = True, phase = READY, force_keep = False, dependencies = []\<rparr>)"

definition example_state :: CloudState where
  "example_state = [(''app'', ''client'', ''c1'') \<mapsto> 1, (''app'', ''server'', ''s1'') \<mapsto> 2]"

text \<open>
  A task for instance \<open>inst1\<close> of a component whose id is \<open>comp_id\<close>, an actual state that
  holds that instance, and one that also holds an instance whose id is the component's id.
\<close>

definition example_task :: FinalizeInstanceTask where
  "example_task =
     \<lparr>task_component = \<lparr>application_name = ''app'', component_name = ''comp'',
                         component_id = ''comp_id'', probes = []\<rparr>,
      task_instance_id = ''inst1''\<rparr>"

definition example_instances :: heap where
  "example_instances =
     (\<lambda>r. \<lparr>compin_application = ''app'', compin_component = ''comp'', compin_id = ''inst1'',
            managed = True, phase = READY, force_keep = False, dependencies = []\<rparr>)
     (1 := \<lparr>compin_application = ''app'', compin_component = ''comp'', compin_id = ''comp_id'',
            managed = True, phase = INIT, force_keep = False, dependencies = []\<rparr>)"

text \<open>Two components: \<open>A\<close> with two probes and \<open>B\<close> with one.\<close>

definition example_probes :: "string \<rightharpoonup> string list" where
  "example_probes = [''A'' \<mapsto> [''a1'', ''a2''], ''B'' \<mapsto> [''b1'']]"

text \<open>
  An aggregator with one registered application: component \<open>A\<close> with the probes \<open>a1\<close>
  (one TimeContract) and \<open>a2\<close> (no requirement). Measurements are recorded for \<open>a1\<close> alone
  and for \<open>a1\<close> next to \<open>a2\<close> or \<open>a1\<close>, none for \<open>a2\<close>; the measured time of 20 exceeds the
  limit of 10. In \<open>example_aggregator_measured\<close> every probe is measured and within its
  limit.
\<close>

definition example_config :: Config where
  "example_config = \<lparr>DEFAULT_HARDWARE_ID = ''hw'', STATISTICAL_PREDICTION_ENABLED = False\<rparr>"

definition example_a1 :: Probe where
  "example_a1 = \<lparr>probe_alias = ''a1'', probe_component_id = ''A'', requirements = [TimeContract 95 10]\<rparr>"

definition example_a2 :: Probe where
  "example_a2 = \<lparr>probe_alias = ''a2'', probe_component_id = ''A'', requirements = []\<rparr>"

definition example_app :: Application where
  "example_app =
     \<lparr>app_name = ''app'',
      components = [\<lparr>application_name = ''app'', component_name = ''A'', component_id = ''A'',
                     probes = [example_a1, example_a2]\<rparr>],
      is_complete = True\<rparr>"

definition example_measurements :: MeasurementAggregator where
  "example_measurements =
     \<lparr>compose_measurement_name = (\<lambda>hw combination. hw @ concat (map (\<lambda>a. CHR ''-'' # a) combination)),
      has_measurement = (\<lambda>name. name \<in> set [''hw-a1'', ''hw-a1-a2'', ''hw-a1-a1'']),
      predict_time = (\<lambda>name limit pct. 20 \<le> limit),
      predict_throughput = spec_predict_throughput (\<lambda>name. 20)\<rparr>"

definition example_aggregator :: PerformanceDataAggregator where
  "example_aggregator =
     \<lparr>single_process_predictor = example_measurements,
      predictor = \<lparr>multi_predict_time = (\<lambda>hw combination limit pct. True),
                   multi_predict_throughput = spec_multi_predict_throughput (\<lambda>hw combination. 20)\<rparr>,
      applications = [''app'' \<mapsto> example_app],
      probes_by_component = [''A'' \<mapsto> [''a1'', ''a2'']],
      probes_by_id = [''a1'' \<mapsto> example_a1, ''a2'' \<mapsto> example_a2],
      scenario_generator = (\<lambda>key. 0)\<rparr>"

definition example_aggregator_measured :: PerformanceDataAggregator where
  "example_aggregator_measured =
     example_aggregator
       \<lparr>single_process_predictor :=
          example_measurements
            \<lparr>has_measurement := (\<lambda>name. name \<in> set [''hw-a1'', ''hw-a2'']),
             predict_time := (\<lambda>name limit pct. 5 \<le> limit)\<rparr>\<rparr>"

section \<open>Publication of accepted architectures\<close>

lemma publish_loop_result:
  "fst (publish_loop xs acc) = acc @ map (architecture \<circ> snd) (filter (\<lambda>(k, e). status e = ACCEPTED) xs)"
proof (induction xs arbitrary: acc)
  case Nil
  show ?case by simp
next
  case (Cons x xs)
  obtain k e where x: "x = (k, e)" by (cases x)
  show ?case
  proof (cases "status e = ACCEPTED")
    case True
    then show ?thesis
      using Cons.IH [of "acc @ [architecture e]"] by (simp add: x case_prod_beta)
  next
    case False
    then show ?thesis
      using Cons.IH [of acc] by (simp add: x case_prod_beta)
  qed
qed

lemma publish_loop_entries:
  "snd (publish_loop xs acc) = map (\<lambda>(k, e). (k, published_entry e)) xs"
proof (induction xs arbitrary: acc)
  case Nil
  show ?case by simp
next
  case (Cons x xs)
  obtain k e where x: "x = (k, e)" by (cases x)
  show ?case
  proof (cases "status e = ACCEPTED")
    case True
    then show ?thesis
      using Cons.IH [of "acc @ [architecture e]"]
      by (simp add: x published_entry_def case_prod_beta)
  next
    case False
    then show ?thesis
      using Cons.IH [of acc] by (simp add: x published_entry_def case_prod_beta)
  qed
qed

lemma published_entry_not_accepted: "status (published_entry e) \<noteq> ACCEPTED"
  by (simp add: published_entry_def)

lemma no_accepted_after_publication:
  "filter (\<lambda>(k, e). status e = ACCEPTED) (map (\<lambda>(k, e). (k, published_entry e)) xs) = []"
  by (induction xs) (auto simp: published_entry_not_accepted)

text \<open>
  Claim C10. One call to \<open>publish_new_architectures\<close> returns exactly the stored
  architectures of the entries whose status was \<open>ACCEPTED\<close>, in dict order; it leaves every
  such entry with status \<open>PUBLISHED\<close> and no architecture, leaves every other entry and the
  other fields of the database as they were, and a second call right after returns the
  empty list.
\<close>

theorem publish_new_architectures_once:
  "fst (publish_new_architectures db) =
      map (architecture \<circ> snd) (filter (\<lambda>(k, e). status e = ACCEPTED) (apps db))
   \<and> apps (snd (publish_new_architectures db)) =
      map (\<lambda>(k, e). (k, if status e = ACCEPTED
                          then e\<lparr>status := PUBLISHED, architecture := None\<rparr> else e)) (apps db)
   \<and> app_removal_cache (snd (publish_new_architectures db)) = app_removal_cache db
   \<and> probes_by_alias (snd (publish_new_architectures db)) = probes_by_alias db
   \<and> fst (publish_new_architectures (snd (publish_new_architectures db))) = []"
proof -
  obtain res apps' where l: "publish_loop (apps db) [] = (res, apps')"
    by (cases "publish_loop (apps db) []")
  have res: "res = map (architecture \<circ> snd) (filter (\<lambda>(k, e). status e = ACCEPTED) (apps db))"
    using publish_loop_result [of "apps db" "[]"] l by simp
  have apps': "apps' = map (\<lambda>(k, e). (k, published_entry e)) (apps db)"
    using publish_loop_entries [of "apps db" "[]"] l by simp
  have p: "publish_new_architectures db = (res, db\<lparr>apps := apps'\<rparr>)"
    by (simp add: publish_new_architectures_def l)
  have again: "fst (publish_loop apps' []) = []"
    using publish_loop_result [of apps' "[]"] no_accepted_after_publication [of "apps db"]
    by (simp add: apps')
  have second: "fst (publish_new_architectures (db\<lparr>apps := apps'\<rparr>)) = []"
    using again by (simp add: publish_new_architectures_def case_prod_beta)
  have shape: "map (\<lambda>(k, e). (k, published_entry e)) (apps db) =
      map (\<lambda>(k, e). (k, if status e = ACCEPTED
                          then e\<lparr>status := PUBLISHED, architecture := None\<rparr> else e)) (apps db)"
    by (simp add: published_entry_def)
  show ?thesis
    using res apps' second shape by (simp add: p)
qed

section \<open>Alias generation\<close>

lemma choice_mem: "seq \<noteq> [] \<Longrightarrow> choice rnd n seq \<in> set seq"
  by (simp add: choice_def)

lemma ascii_uppercase_length: "length ascii_uppercase = 26"
  by (simp add: ascii_uppercase_def)

lemma random_id_well_formed: "well_formed_alias (random_id rnd pos)"
proof -
  have "ascii_uppercase \<noteq> []" using ascii_uppercase_length by auto
  then have "\<forall>i. choice rnd (pos + i) ascii_uppercase \<in> set ascii_uppercase"
    by (simp add: choice_mem)
  then show ?thesis
    by (auto simp: well_formed_alias_def random_id_def)
qed

lemma alias_loop_fresh:
  "ident \<notin> dom m \<Longrightarrow> alias_loop rnd m ident pos = Some (ident, pos)"
  by (subst alias_loop.simps) simp

lemma alias_loop_taken:
  "ident \<in> dom m \<Longrightarrow> alias_loop rnd m ident pos = alias_loop rnd m (random_id rnd pos) (pos + 4)"
  by (subst alias_loop.simps) simp

lemma alias_loop_sound:
  assumes "alias_loop rnd m ident pos = Some y"
  shows "well_formed_alias ident \<longrightarrow> well_formed_alias (fst y) \<and> fst y \<notin> dom m"
  using assms
proof (induction rnd m ident pos y rule: alias_loop.raw_induct)
  case (1 approx rnd m ident pos y)
  show ?case
  proof (cases "ident \<in> dom m")
    case True
    have a: "approx rnd m (random_id rnd pos) (pos + 4) = Some y"
      using 1(2) True by simp
    have b: "alias_loop rnd m (random_id rnd pos) (pos + 4) = Some y"
      using 1(3) True by (simp add: alias_loop_taken)
    show ?thesis
      using 1(1) [OF a b] random_id_well_formed by blast
  next
    case False
    then show ?thesis using 1(2) by auto
  qed
next
  show "alias_loop rnd m ident pos = Some y" by (rule assms)
qed

lemma alias_loop_returns:
  "random_id rnd (pos + 4 * k) \<notin> dom m \<Longrightarrow> \<exists>y. alias_loop rnd m ident pos = Some y"
proof (induction k arbitrary: ident pos)
  case 0
  show ?case
  proof (cases "ident \<in> dom m")
    case True
    then show ?thesis using 0 by (simp add: alias_loop_taken alias_loop_fresh)
  next
    case False
    then show ?thesis by (simp add: alias_loop_fresh)
  qed
next
  case (Suc k)
  show ?case
  proof (cases "ident \<in> dom m")
    case True
    have "random_id rnd (pos + 4 + 4 * k) \<notin> dom m" using Suc.prems by (simp add: add.assoc)
    then show ?thesis using Suc.IH [of "pos + 4" "random_id rnd pos"] True
      by (simp add: alias_loop_taken)
  next
    case False
    then show ?thesis by (simp add: alias_loop_fresh)
  qed
qed


lemma generate_alias_sound:
  assumes "generate_alias rnd pos db = Some (a, pos', db')"
  shows "well_formed_alias a \<and> a \<notin> dom (probes_by_alias db)
         \<and> probes_by_alias db' = (probes_by_alias db)(a \<mapsto> None)"
proof -
  obtain y where y: "alias_loop rnd (probes_by_alias db) (random_id rnd pos) (pos + 4) = Some y"
    using assms by (auto simp: generate_alias_def split: option.splits)
  have "y = (a, pos')" and db': "db' = db\<lparr>probes_by_alias := (probes_by_alias db)(a \<mapsto> None)\<rparr>"
    using assms y by (auto simp: generate_alias_def split: prod.splits)
  then have "fst y = a" by simp
  then show ?thesis
    using alias_loop_sound [OF y] random_id_well_formed [of rnd pos] db' by simp
qed

text \<open>
  Claim C8. Whenever a run of \<open>n\<close> calls of \<open>_generate_alias\<close> on one database
  returns, the aliases it returned are pairwise different, each is a string of four
  uppercase ASCII letters that was not a key of \<open>probes_by_alias\<close> before the run (so it
  differs from every alias handed out earlier), and all of them are recorded as keys.
\<close>

theorem generated_aliases_fresh_and_distinct:
  "generate_aliases n rnd pos db = Some (as, pos', db') \<Longrightarrow>
     distinct as
     \<and> (\<forall>a \<in> set as. length a = 4 \<and> set a \<subseteq> set ascii_uppercase
                          \<and> a \<notin> dom (probes_by_alias db))
     \<and> dom (probes_by_alias db') = dom (probes_by_alias db) \<union> set as"
proof (induction n arbitrary: pos db as pos' db')
  case 0
  then show ?case by simp
next
  case (Suc n)
  from Suc.prems obtain a p1 db1 where g: "generate_alias rnd pos db = Some (a, p1, db1)"
    by (auto split: option.splits)
  from Suc.prems g obtain bs where rest: "generate_aliases n rnd p1 db1 = Some (bs, pos', db')"
    and as: "as = a # bs"
    by (auto split: option.splits)
  note s = generate_alias_sound [OF g]
  note ih = Suc.IH [OF rest]
  have d1: "dom (probes_by_alias db1) = insert a (dom (probes_by_alias db))"
    using s by simp
  have "a \<notin> set bs" using ih d1 by auto
  moreover have "\<forall>b \<in> set bs. b \<notin> dom (probes_by_alias db)" using ih d1 by auto
  ultimately show ?case
    using s ih d1 as by (auto simp: well_formed_alias_def)
qed

text \<open>
  A run on a database that already holds \<open>ABCD\<close>, with the random picks
  \<open>A, B, C, D, E, ...\<close>: the first candidate collides, the loop draws again.
\<close>

theorem generated_aliases_fresh_and_distinct_witness:
  "generate_aliases 2 (\<lambda>n. n) 0
      \<lparr>apps = [], app_removal_cache = [], probes_by_alias = [''ABCD'' \<mapsto> (None :: unit option)]\<rparr>
    = Some ([''EFGH'', ''IJKL''], 12,
        \<lparr>apps = ([] :: (string \<times> unit AppEntry) list), app_removal_cache = [],
         probes_by_alias = [''ABCD'' \<mapsto> None, ''EFGH'' \<mapsto> None, ''IJKL'' \<mapsto> None]\<rparr>)
   \<and> distinct [''EFGH'', ''IJKL'']
   \<and> length ''EFGH'' = 4 \<and> set ''EFGH'' \<subseteq> set ascii_uppercase
   \<and> ''EFGH'' \<notin> dom [''ABCD'' \<mapsto> (None :: unit option)]
   \<and> length ''IJKL'' = 4 \<and> set ''IJKL'' \<subseteq> set ascii_uppercase
   \<and> ''IJKL'' \<notin> dom [''ABCD'' \<mapsto> (None :: unit option)]"
proof -
  have run: "generate_aliases 2 (\<lambda>n. n) 0
      \<lparr>apps = [], app_removal_cache = [], probes_by_alias = [''ABCD'' \<mapsto> (None :: unit option)]\<rparr>
    = Some ([''EFGH'', ''IJKL''], 12,
        \<lparr>apps = ([] :: (string \<times> unit AppEntry) list), app_removal_cache = [],
         probes_by_alias = [''ABCD'' \<mapsto> None, ''EFGH'' \<mapsto> None, ''IJKL'' \<mapsto> None]\<rparr>)"
    by (simp add: numeral_2_eq_2 generate_alias_def random_id_def choice_def
        ascii_uppercase_def upt_rec alias_loop_fresh alias_loop_taken)
  show ?thesis
    using generated_aliases_fresh_and_distinct [OF run] run by simp
qed

section \<open>Finalize task\<close>

text \<open>
  Claim C9. The claim: a successful FinalizeInstanceTask for instance
  (application, component, instance id) raises the phase of exactly that instance to
  FINALIZING. The code looks the compin up under the component's id instead of the
  instance id. With only instance \<open>inst1\<close> (phase READY) in the actual state, the lookup
  finds nothing and \<open>update_model\<close> raises; with a second instance whose id happens to be
  the component's id, that other instance is moved to FINALIZING and \<open>inst1\<close> stays READY.
\<close>

theorem finalize_update_model_uses_component_id:
  "update_model example_task [(''app'', ''comp'', ''inst1'') \<mapsto> 0] example_instances
     = Inl AttributeError
   \<and> update_model example_task
       [(''app'', ''comp'', ''inst1'') \<mapsto> 0, (''app'', ''comp'', ''comp_id'') \<mapsto> 1]
       example_instances
     = Inr (example_instances(1 := (example_instances 1)\<lparr>phase := FINALIZING\<rparr>))
   \<and> phase ((example_instances(1 := (example_instances 1)\<lparr>phase := FINALIZING\<rparr>)) 0) = READY"
  by (simp add: update_model_def get_compin_def example_task_def example_instances_def)

section \<open>Analyzer\<close>

subsection \<open>Marking changes nothing but the marker\<close>

lemma marks_only_refl: "marks_only h h"
  by (simp add: marks_only_def)

lemma marks_only_trans: "marks_only h1 h2 \<Longrightarrow> marks_only h2 h3 \<Longrightarrow> marks_only h1 h3"
  unfolding marks_only_def
proof
  fix r
  assume a: "\<forall>r. h2 r = h1 r \<or> h2 r = (h1 r)\<lparr>force_keep := True\<rparr>"
     and b: "\<forall>r. h3 r = h2 r \<or> h3 r = (h2 r)\<lparr>force_keep := True\<rparr>"
  from a have "h2 r = h1 r \<or> h2 r = (h1 r)\<lparr>force_keep := True\<rparr>" by blast
  moreover from b have "h3 r = h2 r \<or> h3 r = (h2 r)\<lparr>force_keep := True\<rparr>" by blast
  ultimately show "h3 r = h1 r \<or> h3 r = (h1 r)\<lparr>force_keep := True\<rparr>" by auto
qed

lemma marks_only_set_force_keep: "marks_only h (set_force_keep r h)"
  by (simp add: marks_only_def set_force_keep_def)

lemma marks_only_fold: "marks_only h (fold set_force_keep ds h)"
proof (induction ds arbitrary: h)
  case Nil
  show ?case by (simp add: marks_only_refl)
next
  case (Cons d ds)
  show ?case
    using marks_only_trans [OF marks_only_set_force_keep [of h d] Cons.IH [of "set_force_keep d h"]]
    by simp
qed

lemma marks_only_mark: "marks_only h (mark_force_keep_compins cs ds h)"
proof (induction cs arbitrary: h)
  case Nil
  show ?case by (simp add: marks_only_refl)
next
  case (Cons c cs)
  show ?case
  proof (cases "get_compin ds (compin_application (h c)) (compin_component (h c)) (compin_id (h c))")
    case None
    then show ?thesis using Cons.IH [of h] by simp
  next
    case (Some compin)
    then show ?thesis
      using marks_only_trans [OF marks_only_fold [of h "list_dependencies h compin"]
          Cons.IH [of "fold set_force_keep (list_dependencies h compin) h"]]
      by simp
  qed
qed

lemma marks_only_fields:
  assumes "marks_only h h'"
  shows "compin_application (h' r) = compin_application (h r)"
    and "compin_component (h' r) = compin_component (h r)"
    and "compin_id (h' r) = compin_id (h r)"
    and "dependencies (h' r) = dependencies (h r)"
    and "phase (h' r) = phase (h r)"
    and "managed (h' r) = managed (h r)"
proof -
  have "h' r = h r \<or> h' r = (h r)\<lparr>force_keep := True\<rparr>"
    using assms by (simp add: marks_only_def)
  then show "compin_application (h' r) = compin_application (h r)"
    and "compin_component (h' r) = compin_component (h r)"
    and "compin_id (h' r) = compin_id (h r)"
    and "dependencies (h' r) = dependencies (h r)"
    and "phase (h' r) = phase (h r)"
    and "managed (h' r) = managed (h r)"
    by auto
qed

lemma marks_only_keeps:
  assumes "marks_only h h'" and "force_keep (h r)"
  shows "force_keep (h' r)"
proof -
  have "h' r = h r \<or> h' r = (h r)\<lparr>force_keep := True\<rparr>"
    using assms(1) by (simp add: marks_only_def)
  then show ?thesis using assms(2) by auto
qed

lemma fold_set_force_keep_marks: "d \<in> set ds \<Longrightarrow> force_keep ((fold set_force_keep ds h) d)"
proof (induction ds arbitrary: h)
  case Nil
  then show ?case by simp
next
  case (Cons x ds)
  show ?case
  proof (cases "d \<in> set ds")
    case True
    then show ?thesis using Cons.IH by simp
  next
    case False
    then have "d = x" using Cons.prems by simp
    then have "force_keep ((set_force_keep x h) d)" by (simp add: set_force_keep_def)
    then show ?thesis
      using marks_only_keeps [OF marks_only_fold [of "set_force_keep x h" ds]] by simp
  qed
qed

lemma mark_force_keep_compins_marks:
  assumes "client \<in> set cs"
      and "get_compin ds (compin_application (h client)) (compin_component (h client))
             (compin_id (h client)) = Some compin"
      and "d \<in> set (list_dependencies h compin)"
  shows "force_keep ((mark_force_keep_compins cs ds h) d)"
  using assms
proof (induction cs arbitrary: h)
  case Nil
  then show ?case by simp
next
  case (Cons c cs)
  define h1 where "h1 =
    (case get_compin ds (compin_application (h c)) (compin_component (h c)) (compin_id (h c)) of
       None \<Rightarrow> h | Some x \<Rightarrow> fold set_force_keep (list_dependencies h x) h)"
  have step: "mark_force_keep_compins (c # cs) ds h = mark_force_keep_compins cs ds h1"
    by (simp add: h1_def split: option.splits)
  have m1: "marks_only h h1"
    by (simp add: h1_def marks_only_refl marks_only_fold split: option.splits)
  show ?case
  proof (cases "client = c")
    case True
    then have "h1 = fold set_force_keep (list_dependencies h compin) h"
      using Cons.prems(2) by (simp add: h1_def)
    then have "force_keep (h1 d)"
      using fold_set_force_keep_marks [OF Cons.prems(3)] by simp
    then show ?thesis
      using marks_only_keeps [OF marks_only_mark [of h1 cs ds]] step by simp
  next
    case False
    then have mem: "client \<in> set cs" using Cons.prems(1) by simp
    have key: "get_compin ds (compin_application (h1 client)) (compin_component (h1 client))
             (compin_id (h1 client)) = Some compin"
      using Cons.prems(2) marks_only_fields [OF m1] by simp
    have dep: "d \<in> set (list_dependencies h1 compin)"
      using Cons.prems(3) marks_only_fields [OF m1] by (simp add: list_dependencies_def)
    show ?thesis using Cons.IH [OF mem key dep] step by simp
  qed
qed


lemma find_new_assignment_store:
  "find_new_assignment knowledge cycle analyzer pool h = (returned, analyzer', pool', h') \<Longrightarrow>
     h' = mark_force_keep_compins (new_clients knowledge) returned h"
  by (auto simp: find_new_assignment_def Let_def split: option.splits if_splits)

lemma example_run:
  "find_new_assignment \<lparr>actual_state = Map.empty, new_clients = [0]\<rparr>
       \<lparr>solver_result = Some example_state, future_ready = (\<lambda>f. False), future_get = (\<lambda>f. None)\<rparr>
       Analyzer_init 0 example_store
   = (example_state, \<lparr>last_desired_state = example_state, longterm_result_future = None\<rparr>, 0,
      set_force_keep 2 example_store)"
  by (simp add: find_new_assignment_def Analyzer_init_def example_state_def example_store_def
      get_compin_def list_dependencies_def Let_def)

subsection \<open>Dependencies of new clients\<close>

text \<open>
  Claim C6. In the store as \<open>find_new_assignment\<close> leaves it, every dependency of the
  compin that the returned state holds for a new client (a client listed by
  \<open>list_new_clients\<close> whose application, component and id are present in the returned
  state) is marked \<open>force_keep\<close>.
\<close>

theorem new_client_dependencies_force_keep:
  assumes "find_new_assignment knowledge cycle analyzer pool h = (returned, analyzer', pool', h')"
      and "client \<in> set (new_clients knowledge)"
      and "get_compin returned (compin_application (h' client)) (compin_component (h' client))
             (compin_id (h' client)) = Some compin"
      and "dependency \<in> set (list_dependencies h' compin)"
  shows "force_keep (h' dependency)"
proof -
  have h': "h' = mark_force_keep_compins (new_clients knowledge) returned h"
    using find_new_assignment_store [OF assms(1)] .
  have m: "marks_only h h'"
    using marks_only_mark by (simp add: h')
  have key: "get_compin returned (compin_application (h client)) (compin_component (h client))
             (compin_id (h client)) = Some compin"
    using assms(3) marks_only_fields [OF m] by simp
  have dep: "dependency \<in> set (list_dependencies h compin)"
    using assms(4) marks_only_fields [OF m] by (simp add: list_dependencies_def)
  show ?thesis
    using mark_force_keep_compins_marks [OF assms(2) key dep] by (simp add: h')
qed

theorem new_client_dependencies_force_keep_witness:
  "force_keep (set_force_keep 2 example_store 2)"
proof -
  have c: "(0::nat) \<in> set (new_clients \<lparr>actual_state = Map.empty, new_clients = [0]\<rparr>)" by simp
  have k: "get_compin example_state (compin_application (set_force_keep 2 example_store 0))
      (compin_component (set_force_keep 2 example_store 0))
      (compin_id (set_force_keep 2 example_store 0)) = Some 1"
    by (simp add: get_compin_def example_state_def example_store_def set_force_keep_def)
  have d: "2 \<in> set (list_dependencies (set_force_keep 2 example_store) 1)"
    by (simp add: list_dependencies_def example_store_def set_force_keep_def)
  show ?thesis
    using new_client_dependencies_force_keep [OF example_run c k d] .
qed

subsection \<open>No solution within the time limit\<close>

text \<open>
  Claim C3, as the claim states it: with no previous desired state, a call in which the
  solver finds nothing returns the actual state. A fresh analyzer holds the empty
  CloudState as its last desired state and returns that one; the actual state here is not
  empty.
\<close>

theorem fresh_analyzer_returns_empty_state:
  "fst (find_new_assignment
          \<lparr>actual_state = [(''app'', ''server'', ''s1'') \<mapsto> 2], new_clients = []\<rparr>
          \<lparr>solver_result = None, future_ready = (\<lambda>f. False), future_get = (\<lambda>f. None)\<rparr>
          Analyzer_init 0 example_store) = Map.empty
   \<and> fst (find_new_assignment
          \<lparr>actual_state = [(''app'', ''server'', ''s1'') \<mapsto> 2], new_clients = []\<rparr>
          \<lparr>solver_result = None, future_ready = (\<lambda>f. False), future_get = (\<lambda>f. None)\<rparr>
          Analyzer_init 0 example_store)
       \<noteq> actual_state \<lparr>actual_state = [(''app'', ''server'', ''s1'') \<mapsto> 2], new_clients = []\<rparr>"
proof -
  have "(Map.empty :: CloudState) \<noteq> [(''app'', ''server'', ''s1'') \<mapsto> 2]"
    by (metis map_upd_nonempty)
  then show ?thesis
    by (simp add: find_new_assignment_def Analyzer_init_def)
qed

text \<open>
  Claim C3, amended. For every call in which the solver returns no solution, the returned
  state becomes the last desired state, and: with no long-term search running, the call
  submits exactly one task to the pool, keeps its handle and returns the last desired state
  (the empty CloudState on a fresh analyzer); with a search running whose result is ready,
  the call drops the handle, submits nothing and returns the result (the last desired
  state if the search ended without one); with a search running that is not ready, the
  call keeps the handle, submits nothing and returns the last desired state.
\<close>

theorem find_new_assignment_without_solution:
  assumes "solver_result cycle = None"
      and "find_new_assignment knowledge cycle analyzer pool h = (returned, analyzer', pool', h')"
  shows "last_desired_state analyzer' = returned
     \<and> (case longterm_result_future analyzer of
          None \<Rightarrow>
            returned = last_desired_state analyzer
            \<and> longterm_result_future analyzer' = Some pool \<and> pool' = pool + 1
        | Some future \<Rightarrow>
            pool' = pool
            \<and> (if future_ready cycle future
               then longterm_result_future analyzer' = None
                  \<and> returned = (case future_get cycle future of
                                  Some s \<Rightarrow> s | None \<Rightarrow> last_desired_state analyzer)
               else longterm_result_future analyzer' = Some future
                  \<and> returned = last_desired_state analyzer))"
  using assms
  by (auto simp: find_new_assignment_def Let_def split: option.splits if_splits)


theorem find_new_assignment_without_solution_witness:
  "find_new_assignment \<lparr>actual_state = Map.empty, new_clients = [0]\<rparr>
      \<lparr>solver_result = None, future_ready = (\<lambda>f. f = 0), future_get = (\<lambda>f. Some example_state)\<rparr>
      \<lparr>last_desired_state = Map.empty, longterm_result_future = Some 0\<rparr> 1 example_store
    = (example_state, \<lparr>last_desired_state = example_state, longterm_result_future = None\<rparr>, 1,
       set_force_keep 2 example_store)
   \<and> last_desired_state \<lparr>last_desired_state = example_state, longterm_result_future = None\<rparr>
     = example_state
   \<and> longterm_result_future \<lparr>last_desired_state = example_state, longterm_result_future = None\<rparr>
     = None"
proof -
  have c: "solver_result
      \<lparr>solver_result = None, future_ready = (\<lambda>f. f = 0), future_get = (\<lambda>f. Some example_state)\<rparr>
      = None"
    by simp
  have run: "find_new_assignment \<lparr>actual_state = Map.empty, new_clients = [0]\<rparr>
      \<lparr>solver_result = None, future_ready = (\<lambda>f. f = 0), future_get = (\<lambda>f. Some example_state)\<rparr>
      \<lparr>last_desired_state = Map.empty, longterm_result_future = Some 0\<rparr> 1 example_store
    = (example_state, \<lparr>last_desired_state = example_state, longterm_result_future = None\<rparr>, 1,
       set_force_keep 2 example_store)"
    by (simp add: find_new_assignment_def example_state_def example_store_def
        get_compin_def list_dependencies_def Let_def)
  show ?thesis
    using find_new_assignment_without_solution [OF c run] run by simp
qed

section \<open>Probe combinations\<close>

lemma collect_Inr_iff:
  "collect gs = Inr ys \<longleftrightarrow> (\<forall>g \<in> set gs. \<exists>zs. g = Inr zs) \<and> ys = concat (map projr gs)"
proof (induction gs arbitrary: ys)
  case Nil
  show ?case by auto
next
  case (Cons g gs)
  show ?case
  proof (cases g)
    case (Inl e)
    then show ?thesis by auto
  next
    case (Inr zs)
    show ?thesis
    proof (cases "collect gs")
      case (Inl e)
      then have "\<not> (\<forall>g \<in> set gs. \<exists>zs. g = Inr zs)" using Cons.IH by force
      then show ?thesis using Inl \<open>g = Inr zs\<close> by auto
    next
      case r: (Inr ws)
      then have "(\<forall>g \<in> set gs. \<exists>zs. g = Inr zs) \<and> ws = concat (map projr gs)"
        using Cons.IH by simp
      then show ?thesis using r \<open>g = Inr zs\<close> by auto
    qed
  qed
qed

lemma collect_mem:
  assumes "collect gs = Inr ys" and "y \<in> set ys"
  shows "\<exists>zs. Inr zs \<in> set gs \<and> y \<in> set zs"
proof -
  from assms(1) have all: "\<forall>g \<in> set gs. \<exists>zs. g = Inr zs" and ys: "ys = concat (map projr gs)"
    using collect_Inr_iff by blast+
  from assms(2) ys obtain g where g: "g \<in> set gs" and y: "y \<in> set (projr g)" by auto
  from all g obtain zs where "g = Inr zs" by blast
  then show ?thesis using g y by auto
qed

lemma collect_map_mem:
  assumes "collect (map f xs) = Inr ys" and "y \<in> set ys"
  shows "\<exists>x \<in> set xs. \<exists>zs. f x = Inr zs \<and> y \<in> set zs"
proof -
  from collect_mem [OF assms] obtain zs where "Inr zs \<in> set (map f xs)" "y \<in> set zs" by blast
  then obtain x where "x \<in> set xs" "f x = Inr zs" by auto
  then show ?thesis using \<open>y \<in> set zs\<close> by blast
qed

lemma collect_total:
  "(\<forall>g \<in> set gs. \<exists>zs. g = Inr zs) \<Longrightarrow> \<exists>ys. collect gs = Inr ys"
  using collect_Inr_iff by blast

lemma generate_probe_combinations_sound:
  "c \<in> set (generate_probe_combinations ps size' combination) \<Longrightarrow>
     int (length c) = size' \<and> (\<exists>ext. c = combination @ ext \<and> set ext \<subseteq> set ps)"
proof (induction ps arbitrary: combination)
  case Nil
  then show ?case by (auto split: if_splits)
next
  case (Cons p ps)
  show ?case
  proof (cases "int (length combination) = size'")
    case True
    then show ?thesis using Cons.prems by auto
  next
    case False
    then obtain i where "c \<in> set (generate_probe_combinations ps size' (combination @ replicate i p))"
      using Cons.prems by (auto split: if_splits)
    from Cons.IH [OF this] obtain ext where
      "int (length c) = size'" and "c = (combination @ replicate i p) @ ext" and "set ext \<subseteq> set ps"
      by blast
    then have "c = combination @ (replicate i p @ ext) \<and> set (replicate i p @ ext) \<subseteq> set (p # ps)"
      by auto
    then show ?thesis using \<open>int (length c) = size'\<close> by blast
  qed
qed


lemma generate_component_combinations_sound:
  "generate_component_combinations pbc tuples combination main_component = Inr fcs \<Longrightarrow>
   c \<in> set fcs \<Longrightarrow>
     \<exists>blocks. c = combination @ concat blocks \<and> list_all2 (block_of pbc main_component) tuples blocks"
proof (induction tuples arbitrary: combination fcs)
  case Nil
  then show ?case by auto
next
  case (Cons t rest)
  obtain component count where t: "t = (component, count)" by (cases t)
  define n where "n = (if component = main_component then count - 1 else count)"
  obtain ps where ps: "pbc component = Some ps"
    using Cons.prems(1) by (cases "pbc component") (auto simp: t)
  have run: "collect (map (\<lambda>pc. generate_component_combinations pbc rest (combination @ pc) main_component)
                 (generate_probe_combinations ps n [])) = Inr fcs"
    using Cons.prems(1) by (simp add: t ps n_def)
  from collect_map_mem [OF run Cons.prems(2)] obtain zs pc where
    pc: "pc \<in> set (generate_probe_combinations ps n [])"
    and zs: "generate_component_combinations pbc rest (combination @ pc) main_component = Inr zs"
    and c: "c \<in> set zs"
    by blast
  from Cons.IH [OF zs c] obtain blocks where
    b: "c = (combination @ pc) @ concat blocks" "list_all2 (block_of pbc main_component) rest blocks"
    by blast
  from generate_probe_combinations_sound [OF pc] have "int (length pc) = n" "set pc \<subseteq> set ps"
    by auto
  then have "block_of pbc main_component t pc"
    by (simp add: block_of_def t ps n_def)
  then have "c = combination @ concat (pc # blocks)
      \<and> list_all2 (block_of pbc main_component) (t # rest) (pc # blocks)"
    using b by simp
  then show ?case by blast
qed

lemma generate_component_combinations_total:
  "\<forall>component \<in> set (map fst tuples). component \<in> dom pbc \<Longrightarrow>
     \<exists>fcs. generate_component_combinations pbc tuples combination main_component = Inr fcs"
proof (induction tuples arbitrary: combination)
  case Nil
  show ?case by simp
next
  case (Cons t rest)
  obtain component count where t: "t = (component, count)" by (cases t)
  obtain ps where ps: "pbc component = Some ps" using Cons.prems by (auto simp: t)
  have rest: "\<forall>component \<in> set (map fst rest). component \<in> dom pbc" using Cons.prems by simp
  have "\<forall>g \<in> set (map (\<lambda>pc. generate_component_combinations pbc rest (combination @ pc) main_component)
                 (generate_probe_combinations ps (if component = main_component then count - 1 else count) [])).
          \<exists>zs. g = Inr zs"
    using Cons.IH [OF rest] by auto
  from collect_total [OF this] show ?case by (simp add: t ps)
qed

lemma count_list_distinct: "distinct xs \<Longrightarrow> x \<in> set xs \<Longrightarrow> count_list xs x = 1"
  by (induction xs) (auto simp: count_list_0_iff)

lemma blocks_length:
  "list_all2 (block_of pbc main_component) tuples blocks \<Longrightarrow>
     int (length (concat blocks)) =
       sum_list (map snd tuples) - int (count_list (map fst tuples) main_component)"
  by (induction rule: list_all2_induct) (auto simp: block_of_def)

lemma combinations_with_main_total:
  assumes "\<forall>component \<in> set (map fst tuples). component \<in> dom pbc" and "main_component \<in> dom pbc"
  shows "\<exists>cs. combinations_with_main pbc tuples main_component = Inr cs"
proof -
  obtain fcs where fcs: "generate_component_combinations pbc tuples [] main_component = Inr fcs"
    using generate_component_combinations_total [OF assms(1)] by blast
  obtain ps where ps: "pbc main_component = Some ps" using assms(2) by auto
  have "\<forall>g \<in> set (map (\<lambda>full_combination.
            case pbc main_component of None \<Rightarrow> Inl KeyError
            | Some ps \<Rightarrow> Inr (map (\<lambda>probe_id. probe_id # full_combination) ps)) fcs).
          \<exists>zs. g = Inr zs"
    by (auto simp: ps)
  from collect_total [OF this] show ?thesis
    by (simp add: combinations_with_main_def fcs)
qed

lemma combinations_with_main_sound:
  assumes "combinations_with_main pbc tuples main_component = Inr cs" and "c \<in> set cs"
  shows "\<exists>probe_id blocks ps. pbc main_component = Some ps \<and> probe_id \<in> set ps
           \<and> c = probe_id # concat blocks
           \<and> list_all2 (block_of pbc main_component) tuples blocks"
proof -
  obtain fcs where fcs: "generate_component_combinations pbc tuples [] main_component = Inr fcs"
    using assms(1) by (auto simp: combinations_with_main_def split: sum.splits)
  have run: "collect (map (\<lambda>full_combination.
            case pbc main_component of None \<Rightarrow> Inl KeyError
            | Some ps \<Rightarrow> Inr (map (\<lambda>probe_id. probe_id # full_combination) ps)) fcs) = Inr cs"
    using assms(1) by (simp add: combinations_with_main_def fcs)
  from collect_map_mem [OF run assms(2)] obtain zs fc where
    fc: "fc \<in> set fcs"
    and zs: "(case pbc main_component of None \<Rightarrow> Inl KeyError
            | Some ps \<Rightarrow> Inr (map (\<lambda>probe_id. probe_id # fc) ps)) = Inr zs"
    and c: "c \<in> set zs"
    by blast
  obtain ps where ps: "pbc main_component = Some ps"
    using zs by (cases "pbc main_component") auto
  then obtain probe_id where p: "probe_id \<in> set ps" "c = probe_id # fc"
    using zs c by auto
  from generate_component_combinations_sound [OF fcs fc] obtain blocks where
    "fc = concat blocks" "list_all2 (block_of pbc main_component) tuples blocks"
    by auto
  then show ?thesis using ps p by blast
qed

lemma example_combinations:
  "generate_combinations example_probes [(''A'', 2), (''B'', 1)] =
     Inr [[''a1'', ''a2'', ''b1''], [''a2'', ''a2'', ''b1''],
          [''a1'', ''a1'', ''b1''], [''a2'', ''a1'', ''b1''],
          [''b1'', ''a2'', ''a2''], [''b1'', ''a1'', ''a2''],
          [''b1'', ''a1'', ''a1'']]"
  by code_simp

text \<open>
  Claim C2. For an assignment (a dict, so its component ids are pairwise different) whose
  component ids are all registered in \<open>_probes_by_component\<close>, \<open>_generate_combinations\<close>
  raises nothing, and every list it yields has as many elements as the counts add up to,
  starts with a probe of the main component chosen by the outer loop, and continues with
  one block per component of the assignment, in order, each block made of probes of that
  component (repetition allowed) and as long as the component's count, one shorter for the
  main component. Positive counts are not needed for this.
\<close>

theorem generate_combinations_shape:
  assumes "distinct (map fst assignment)"
      and "\<forall>component \<in> set (map fst assignment). component \<in> dom pbc"
  shows "\<exists>combinations. generate_combinations pbc assignment = Inr combinations
     \<and> (\<forall>c \<in> set combinations.
           int (length c) = sum_list (map snd assignment)
         \<and> (\<exists>main_component probe_id blocks ps.
                main_component \<in> set (map fst assignment)
              \<and> pbc main_component = Some ps \<and> probe_id \<in> set ps
              \<and> c = probe_id # concat blocks
              \<and> list_all2 (block_of pbc main_component) assignment blocks))"
proof -
  have "\<forall>g \<in> set (map (\<lambda>component. combinations_with_main pbc assignment component)
                       (map fst assignment)). \<exists>zs. g = Inr zs"
    using combinations_with_main_total [OF assms(2)] assms(2) by auto
  from collect_total [OF this] obtain combinations where
    run: "generate_combinations pbc assignment = Inr combinations"
    by (auto simp: generate_combinations_def)
  have "int (length c) = sum_list (map snd assignment)
         \<and> (\<exists>main_component probe_id blocks ps.
                main_component \<in> set (map fst assignment)
              \<and> pbc main_component = Some ps \<and> probe_id \<in> set ps
              \<and> c = probe_id # concat blocks
              \<and> list_all2 (block_of pbc main_component) assignment blocks)"
    if c: "c \<in> set combinations" for c
  proof -
    from collect_map_mem [OF run [unfolded generate_combinations_def] c] obtain zs main_component where
      m: "main_component \<in> set (map fst assignment)"
      and zs: "combinations_with_main pbc assignment main_component = Inr zs"
      and cz: "c \<in> set zs"
      by blast
    from combinations_with_main_sound [OF zs cz] obtain probe_id blocks ps where
      s: "pbc main_component = Some ps" "probe_id \<in> set ps" "c = probe_id # concat blocks"
         "list_all2 (block_of pbc main_component) assignment blocks"
      by blast
    have "int (length (concat blocks)) = sum_list (map snd assignment) - 1"
      using blocks_length [OF s(4)] count_list_distinct [OF assms(1) m] by simp
    then have "int (length c) = sum_list (map snd assignment)" using s(3) by simp
    then show ?thesis using m s by blast
  qed
  then show ?thesis using run by blast
qed


theorem generate_combinations_shape_witness:
  "generate_combinations example_probes [(''A'', 2), (''B'', 1)] =
     Inr [[''a1'', ''a2'', ''b1''], [''a2'', ''a2'', ''b1''],
          [''a1'', ''a1'', ''b1''], [''a2'', ''a1'', ''b1''],
          [''b1'', ''a2'', ''a2''], [''b1'', ''a1'', ''a2''],
          [''b1'', ''a1'', ''a1'']]
   \<and> int (length [''b1'', ''a1'', ''a2'']) = sum_list (map snd [(''A'', 2), (''B'', 1 :: int)])
   \<and> (\<exists>main_component probe_id blocks ps.
          main_component \<in> set (map fst [(''A'', 2), (''B'', 1 :: int)])
        \<and> example_probes main_component = Some ps \<and> probe_id \<in> set ps
        \<and> [''b1'', ''a1'', ''a2''] = probe_id # concat blocks
        \<and> list_all2 (block_of example_probes main_component) [(''A'', 2), (''B'', 1)] blocks)"
proof -
  have d: "distinct (map fst [(''A'', 2), (''B'', 1 :: int)])" by simp
  have r: "\<forall>component \<in> set (map fst [(''A'', 2), (''B'', 1 :: int)]). component \<in> dom example_probes"
    by (simp add: example_probes_def)
  from generate_combinations_shape [OF d r] obtain combinations where
    run: "generate_combinations example_probes [(''A'', 2), (''B'', 1)] = Inr combinations"
    and shape: "\<forall>c \<in> set combinations.
           int (length c) = sum_list (map snd [(''A'', 2), (''B'', 1 :: int)])
         \<and> (\<exists>main_component probe_id blocks ps.
                main_component \<in> set (map fst [(''A'', 2), (''B'', 1 :: int)])
              \<and> example_probes main_component = Some ps \<and> probe_id \<in> set ps
              \<and> c = probe_id # concat blocks
              \<and> list_all2 (block_of example_probes main_component) [(''A'', 2), (''B'', 1)] blocks)"
    by blast
  have "[''b1'', ''a1'', ''a2''] \<in> set combinations"
    using run example_combinations by auto
  then show ?thesis
    using shape example_combinations by blast
qed

section \<open>Predict\<close>

subsection \<open>One instance on the default hardware\<close>

text \<open>
  Claim C5, as the claim states it: for every assignment with one component of count 1 on
  the default hardware, \<open>Predict\<close> returns true. The source first asserts that the
  component is registered; for component \<open>B\<close>, which the aggregator does not know, the call
  raises AssertionError.
\<close>

theorem Predict_single_instance_unregistered:
  "length (pb_components \<lparr>hw_id = ''hw'', pb_components = [(''B'', 1)]\<rparr>) = 1
   \<and> snd (hd (pb_components \<lparr>hw_id = ''hw'', pb_components = [(''B'', 1)]\<rparr>)) = 1
   \<and> hw_id \<lparr>hw_id = ''hw'', pb_components = [(''B'', 1)]\<rparr> = DEFAULT_HARDWARE_ID example_config
   \<and> Predict example_config example_aggregator \<lparr>hw_id = ''hw'', pb_components = [(''B'', 1)]\<rparr>
       = Inl AssertionError"
  by (simp add: Predict_def example_config_def example_aggregator_def)

text \<open>
  Claim C5, amended. For every assignment with exactly one component, of count 1, on the
  default hardware, whose component id is registered in \<open>_probes_by_component\<close>,
  \<open>Predict\<close> returns true and leaves the aggregator as it was, whatever the measurement
  store and the statistical predictor are.
\<close>

theorem Predict_single_instance_default_hw:
  assumes "length (pb_components request) = 1"
      and "snd (hd (pb_components request)) = 1"
      and "hw_id request = DEFAULT_HARDWARE_ID cfg"
      and "fst (hd (pb_components request)) \<in> dom (probes_by_component agg)"
  shows "Predict cfg (agg\<lparr>single_process_predictor := spp, predictor := mp\<rparr>) request
         = Inr (True, agg\<lparr>single_process_predictor := spp, predictor := mp\<rparr>)"
  using assms by (simp add: Predict_def)

theorem Predict_single_instance_default_hw_witness:
  "Predict example_config
     (example_aggregator\<lparr>single_process_predictor := example_measurements,
                         predictor := predictor example_aggregator\<rparr>)
     \<lparr>hw_id = ''hw'', pb_components = [(''A'', 1)]\<rparr>
   = Inr (True, example_aggregator\<lparr>single_process_predictor := example_measurements,
                                   predictor := predictor example_aggregator\<rparr>)"
proof -
  have a: "length (pb_components \<lparr>hw_id = ''hw'', pb_components = [(''A'', 1)]\<rparr>) = 1" by simp
  have b: "snd (hd (pb_components \<lparr>hw_id = ''hw'', pb_components = [(''A'', 1)]\<rparr>)) = 1" by simp
  have c: "hw_id \<lparr>hw_id = ''hw'', pb_components = [(''A'', 1)]\<rparr> = DEFAULT_HARDWARE_ID example_config"
    by (simp add: example_config_def)
  have d: "fst (hd (pb_components \<lparr>hw_id = ''hw'', pb_components = [(''A'', 1)]\<rparr>))
      \<in> dom (probes_by_component example_aggregator)"
    by (simp add: example_aggregator_def)
  show ?thesis
    using Predict_single_instance_default_hw [OF a b c d] .
qed

subsection \<open>Throughput contracts\<close>

text \<open>
  Claim C7. With the two \<open>predict_throughput\<close> functions as the spec describes them, the
  prediction that \<open>Predict\<close> computes for a ThroughputContract is, on the path of the stored
  measurement, whether the measured mean is at most the contract's \<open>mean_request_time\<close>,
  and on the path of the statistical predictor, whether the predicted mean is at most the
  contract's \<open>mean_request_time\<close>: both paths pass the contract's bound.
\<close>

theorem throughput_prediction_compares_mean:
  "requirement_prediction
      (spp\<lparr>predict_throughput := spec_predict_throughput mean_running_time\<rparr>)
      (mp\<lparr>multi_predict_throughput := spec_multi_predict_throughput predicted_mean\<rparr>)
      measured measurement hw combination (ThroughputContract bound)
    = (if measured then mean_running_time measurement \<le> bound
       else predicted_mean hw combination \<le> bound)"
  by (simp add: requirement_prediction_def spec_predict_throughput_def
      spec_multi_predict_throughput_def)

subsection \<open>Missing measurements\<close>

lemma assignment_loop_registered:
  assumes "\<forall>component \<in> set (map fst comps). component \<in> dom pbc"
      and "distinct (map fst init)"
  shows "\<exists>assignment. assignment_loop pbc comps init = Inr assignment
           \<and> distinct (map fst assignment)
           \<and> set (map fst assignment) = set (map fst init) \<union> set (map fst comps)"
  using assms
proof (induction comps arbitrary: init)
  case Nil
  then show ?case by simp
next
  case (Cons t rest)
  obtain cid count where t: "t = (cid, count)" by (cases t)
  have reg: "cid \<in> dom pbc" and rest: "\<forall>component \<in> set (map fst rest). component \<in> dom pbc"
    using Cons.prems(1) by (auto simp: t)
  have d: "distinct (map fst (AList.update cid count init))"
    using Cons.prems(2) by (rule AList.distinct_update)
  from Cons.IH [OF rest d] obtain assignment where
    a: "assignment_loop pbc rest (AList.update cid count init) = Inr assignment"
       "distinct (map fst assignment)"
       "set (map fst assignment) = set (map fst (AList.update cid count init)) \<union> set (map fst rest)"
    by blast
  have "set (map fst (AList.update cid count init)) = insert cid (set (map fst init))"
    using AList.dom_update [of cid count init] by simp
  then show ?case using a reg by (auto simp: t)
qed

lemma predict_loop_first_not_clear:
  assumes "\<not> STATISTICAL_PREDICTION_ENABLED cfg"
      and "\<forall>d \<in> set pre. combination_clear agg hw d"
      and "\<not> combination_clear agg hw c"
      and "c \<noteq> []" and "hd c \<in> dom (probes_by_id agg)"
      and "\<forall>d \<in> set pre. d \<noteq> []"
  shows "predict_loop cfg agg hw (pre @ c # post)
         = Inr (False, increase_count (scenario_generator agg) hw (hd c) (length c))"
  using assms(2,6)
proof (induction pre)
  case Nil
  obtain controlled others where c: "c = controlled # others" using assms(4) by (cases c) auto
  obtain probe where probe: "probes_by_id agg controlled = Some probe" using assms(5) c by auto
  show ?case
    using assms(1,3) probe
    by (simp add: c Let_def combination_clear_def combination_measured_def combination_passes_def)
next
  case (Cons d pre)
  obtain controlled others where d: "d = controlled # others" using Cons.prems(2) by (cases d) auto
  have clear: "combination_clear agg hw d" using Cons.prems(1) by simp
  then obtain probe where probe: "probes_by_id agg controlled = Some probe"
    by (auto simp: combination_clear_def combination_passes_def d split: option.splits)
  have m: "has_measurement (single_process_predictor agg)
             (compose_measurement_name (single_process_predictor agg) hw (controlled # others))"
    using clear by (simp add: combination_clear_def combination_measured_def d)
  have r: "requirements_loop (single_process_predictor agg) (predictor agg) True
             (compose_measurement_name (single_process_predictor agg) hw (controlled # others))
             hw (controlled # others) (requirements probe)"
    using clear m probe
    by (simp add: combination_clear_def combination_measured_def combination_passes_def d)
  have "predict_loop cfg agg hw ((d # pre) @ c # post) = predict_loop cfg agg hw (pre @ c # post)"
    using m r probe by (simp add: d Let_def)
  then show ?case using Cons.IH Cons.prems by simp
qed

lemma generate_combinations_registered:
  assumes "distinct (map fst assignment)"
      and "\<forall>component \<in> set (map fst assignment). component \<in> dom pbc"
  shows "\<exists>combinations. generate_combinations pbc assignment = Inr combinations
     \<and> (\<forall>c \<in> set combinations. c \<noteq> [] \<and> (\<exists>ps \<in> ran pbc. hd c \<in> set ps))"
proof -
  have "\<forall>g \<in> set (map (\<lambda>component. combinations_with_main pbc assignment component)
                       (map fst assignment)). \<exists>zs. g = Inr zs"
    using combinations_with_main_total [OF assms(2)] assms(2) by auto
  from collect_total [OF this] obtain combinations where
    run: "generate_combinations pbc assignment = Inr combinations"
    by (auto simp: generate_combinations_def)
  have "c \<noteq> [] \<and> (\<exists>ps \<in> ran pbc. hd c \<in> set ps)" if c: "c \<in> set combinations" for c
  proof -
    from collect_map_mem [OF run [unfolded generate_combinations_def] c] obtain zs main_component where
      zs: "combinations_with_main pbc assignment main_component = Inr zs" and cz: "c \<in> set zs"
      by blast
    from combinations_with_main_sound [OF zs cz] obtain probe_id blocks ps where
      "pbc main_component = Some ps" "probe_id \<in> set ps" "c = probe_id # concat blocks"
      by blast
    then show ?thesis by (auto simp: ran_def)
  qed
  then show ?thesis using run by blast
qed

lemma example_request_combinations:
  "generate_combinations (probes_by_component example_aggregator) [(''A'', 2)]
     = Inr [[''a1'', ''a2''], [''a2'', ''a2''], [''a1'', ''a1''], [''a2'', ''a1'']]"
proof -
  have "generate_combinations [''A'' \<mapsto> [''a1'', ''a2'']] [(''A'', 2)]
     = Inr [[''a1'', ''a2''], [''a2'', ''a2''], [''a1'', ''a1''], [''a2'', ''a1'']]"
    by code_simp
  then show ?thesis by (simp add: example_aggregator_def)
qed

lemma example_request_assignment:
  "assignment_from_pb example_aggregator \<lparr>hw_id = ''hw'', pb_components = [(''A'', 2)]\<rparr>
     = Inr (''hw'', [(''A'', 2)])"
  by (simp add: assignment_from_pb_def example_aggregator_def)

lemma example_request_measured:
  "combination_measured example_aggregator ''hw'' [''a1'', ''a2'']"
  "\<not> combination_measured example_aggregator ''hw'' [''a2'', ''a2'']"
  "combination_measured example_aggregator ''hw'' [''a1'', ''a1'']"
  "\<not> combination_measured example_aggregator ''hw'' [''a2'', ''a1'']"
  by (simp_all add: combination_measured_def example_aggregator_def example_measurements_def)

lemma example_request_predict:
  "Predict example_config example_aggregator \<lparr>hw_id = ''hw'', pb_components = [(''A'', 2)]\<rparr>
     = Inr (False, example_aggregator\<lparr>scenario_generator :=
               increase_count (scenario_generator example_aggregator) ''hw'' ''a1'' 2\<rparr>)"
proof -
  have "predict_loop example_config example_aggregator ''hw''
          [[''a1'', ''a2''], [''a2'', ''a2''], [''a1'', ''a1''], [''a2'', ''a1'']]
     = Inr (False, increase_count (scenario_generator example_aggregator) ''hw'' ''a1'' 2)"
    by (simp add: Let_def example_config_def example_aggregator_def example_measurements_def
        example_a1_def requirement_prediction_def numeral_2_eq_2)
  then show ?thesis
    by (simp add: Predict_def example_request_assignment example_request_combinations
        example_config_def)
qed

text \<open>
  Claim C4, as the claim states it: when some generated combination has no measurement,
  the scenario is requested for that missing combination. Here the combinations with
  controlled probe \<open>a2\<close> have no measurement, but the first combination the loop meets is
  measured and fails the contract of \<open>a1\<close>: \<open>Predict\<close> returns false and increases the
  count for (\<open>a1\<close>, 2); the count for (\<open>a2\<close>, 2) stays as it was.
\<close>

theorem Predict_requests_failing_combination:
  "generate_combinations (probes_by_component example_aggregator) [(''A'', 2)]
     = Inr [[''a1'', ''a2''], [''a2'', ''a2''], [''a1'', ''a1''], [''a2'', ''a1'']]
   \<and> combination_measured example_aggregator ''hw'' [''a1'', ''a2'']
   \<and> \<not> combination_measured example_aggregator ''hw'' [''a2'', ''a2'']
   \<and> combination_measured example_aggregator ''hw'' [''a1'', ''a1'']
   \<and> \<not> combination_measured example_aggregator ''hw'' [''a2'', ''a1'']
   \<and> Predict example_config example_aggregator \<lparr>hw_id = ''hw'', pb_components = [(''A'', 2)]\<rparr>
     = Inr (False, example_aggregator\<lparr>scenario_generator :=
               increase_count (scenario_generator example_aggregator) ''hw'' ''a1'' 2\<rparr>)
   \<and> increase_count (scenario_generator example_aggregator) ''hw'' ''a1'' 2 (''hw'', ''a2'', 2)
     = scenario_generator example_aggregator (''hw'', ''a2'', 2)"
  using example_request_combinations example_request_measured example_request_predict
  by (simp add: increase_count_def)

text \<open>
  Claim C4, amended. For a request that is not the single-instance default-hardware case,
  with statistical prediction disabled, every component registered and every registered
  probe alias known in \<open>_probes_by_id\<close>: \<open>Predict\<close> raises nothing while it builds the
  assignment and the combinations, and if some generated combination has no recorded
  measurement it returns false and increases the scenario generator's count for the
  controlled probe and size of the first combination, in generation order, that has no
  measurement or fails a requirement of its controlled probe (all combinations before it
  are measured and pass).
\<close>

theorem Predict_missing_measurement:
  assumes "\<not> (length (pb_components request) = 1 \<and> snd (hd (pb_components request)) = 1
              \<and> hw_id request = DEFAULT_HARDWARE_ID cfg)"
      and "\<not> STATISTICAL_PREDICTION_ENABLED cfg"
      and "\<forall>component \<in> set (map fst (pb_components request)).
             component \<in> dom (probes_by_component agg)"
      and "\<forall>ps \<in> ran (probes_by_component agg). set ps \<subseteq> dom (probes_by_id agg)"
  shows "\<exists>assignment combinations.
           assignment_from_pb agg request = Inr (hw_id request, assignment)
         \<and> generate_combinations (probes_by_component agg) assignment = Inr combinations
         \<and> ((\<exists>c \<in> set combinations. \<not> combination_measured agg (hw_id request) c) \<longrightarrow>
              (\<exists>pre c post. combinations = pre @ c # post
                 \<and> (\<forall>d \<in> set pre. combination_clear agg (hw_id request) d)
                 \<and> \<not> combination_clear agg (hw_id request) c
                 \<and> Predict cfg agg request =
                     Inr (False, agg\<lparr>scenario_generator :=
                            increase_count (scenario_generator agg) (hw_id request) (hd c) (length c)\<rparr>)))"
proof -
  from assignment_loop_registered [OF assms(3), of "[]"] obtain assignment where
    a: "assignment_loop (probes_by_component agg) (pb_components request) [] = Inr assignment"
       "distinct (map fst assignment)"
       "set (map fst assignment) = set (map fst (pb_components request))"
    by auto
  have afp: "assignment_from_pb agg request = Inr (hw_id request, assignment)"
    by (simp add: assignment_from_pb_def a(1))
  have reg: "\<forall>component \<in> set (map fst assignment). component \<in> dom (probes_by_component agg)"
    using assms(3) a(3) by simp
  from generate_combinations_registered [OF a(2) reg] obtain combinations where
    g: "generate_combinations (probes_by_component agg) assignment = Inr combinations"
    and shape: "\<forall>c \<in> set combinations. c \<noteq> [] \<and> (\<exists>ps \<in> ran (probes_by_component agg). hd c \<in> set ps)"
    by blast
  have known: "\<forall>c \<in> set combinations. c \<noteq> [] \<and> hd c \<in> dom (probes_by_id agg)"
    using shape assms(4) by blast
  have "\<exists>pre c post. combinations = pre @ c # post
                 \<and> (\<forall>d \<in> set pre. combination_clear agg (hw_id request) d)
                 \<and> \<not> combination_clear agg (hw_id request) c
                 \<and> Predict cfg agg request =
                     Inr (False, agg\<lparr>scenario_generator :=
                            increase_count (scenario_generator agg) (hw_id request) (hd c) (length c)\<rparr>)"
    if missing: "\<exists>c \<in> set combinations. \<not> combination_measured agg (hw_id request) c"
  proof -
    from missing have "\<exists>c \<in> set combinations. \<not> combination_clear agg (hw_id request) c"
      by (auto simp: combination_clear_def)
    from split_list_first_prop [OF this] obtain pre c post where
      s: "combinations = pre @ c # post" "\<not> combination_clear agg (hw_id request) c"
         "\<forall>d \<in> set pre. \<not> \<not> combination_clear agg (hw_id request) d"
      by blast
    have pre: "\<forall>d \<in> set pre. combination_clear agg (hw_id request) d" using s(3) by simp
    have c: "c \<noteq> []" "hd c \<in> dom (probes_by_id agg)" using known s(1) by auto
    have pre_ne: "\<forall>d \<in> set pre. d \<noteq> []" using known s(1) by auto
    have "predict_loop cfg agg (hw_id request) combinations
         = Inr (False, increase_count (scenario_generator agg) (hw_id request) (hd c) (length c))"
      using predict_loop_first_not_clear [OF assms(2) pre s(2) c pre_ne] s(1) by simp
    then have "Predict cfg agg request =
        Inr (False, agg\<lparr>scenario_generator :=
               increase_count (scenario_generator agg) (hw_id request) (hd c) (length c)\<rparr>)"
      using assms(1) by (simp add: Predict_def afp g)
    then show ?thesis using s(1,2) pre by blast
  qed
  then show ?thesis using afp g by blast
qed


theorem Predict_missing_measurement_witness:
  "\<exists>pre c post.
      [[''a1'', ''a2''], [''a2'', ''a2''], [''a1'', ''a1''], [''a2'', ''a1'']] = pre @ c # post
    \<and> \<not> combination_clear example_aggregator ''hw'' c
    \<and> Predict example_config example_aggregator \<lparr>hw_id = ''hw'', pb_components = [(''A'', 2)]\<rparr>
        = Inr (False, example_aggregator\<lparr>scenario_generator :=
                 increase_count (scenario_generator example_aggregator) ''hw'' (hd c) (length c)\<rparr>)"
proof -
  let ?request = "\<lparr>hw_id = ''hw'', pb_components = [(''A'', 2 :: int)]\<rparr>"
  have a: "\<not> (length (pb_components ?request) = 1 \<and> snd (hd (pb_components ?request)) = 1
              \<and> hw_id ?request = DEFAULT_HARDWARE_ID example_config)"
    by simp
  have b: "\<not> STATISTICAL_PREDICTION_ENABLED example_config"
    by (simp add: example_config_def)
  have c: "\<forall>component \<in> set (map fst (pb_components ?request)).
             component \<in> dom (probes_by_component example_aggregator)"
    by (simp add: example_aggregator_def)
  have d: "\<forall>ps \<in> ran (probes_by_component example_aggregator).
             set ps \<subseteq> dom (probes_by_id example_aggregator)"
    by (auto simp: example_aggregator_def ran_def)
  from Predict_missing_measurement [OF a b c d] obtain assignment combinations where
    r: "assignment_from_pb example_aggregator ?request = Inr (hw_id ?request, assignment)"
       "generate_combinations (probes_by_component example_aggregator) assignment = Inr combinations"
       "(\<exists>c \<in> set combinations. \<not> combination_measured example_aggregator (hw_id ?request) c) \<longrightarrow>
              (\<exists>pre c post. combinations = pre @ c # post
                 \<and> (\<forall>d \<in> set pre. combination_clear example_aggregator (hw_id ?request) d)
                 \<and> \<not> combination_clear example_aggregator (hw_id ?request) c
                 \<and> Predict example_config example_aggregator ?request =
                     Inr (False, example_aggregator\<lparr>scenario_generator :=
                            increase_count (scenario_generator example_aggregator)
                              (hw_id ?request) (hd c) (length c)\<rparr>))"
    by blast
  have "assignment = [(''A'', 2)]" using r(1) example_request_assignment by simp
  then have combs: "combinations = [[''a1'', ''a2''], [''a2'', ''a2''], [''a1'', ''a1''], [''a2'', ''a1'']]"
    using r(2) example_request_combinations by simp
  have "\<exists>c \<in> set combinations. \<not> combination_measured example_aggregator (hw_id ?request) c"
    using example_request_measured(2) combs by simp
  then show ?thesis using r(3) combs by auto
qed

section \<open>JudgeApp\<close>

lemma judge_probes_append:
  "judge_probes cfg spp (xs @ ys) pv =
     (case judge_probes cfg spp xs pv of
        Verdict result \<Rightarrow> Verdict result
      | Passed pv' \<Rightarrow> judge_probes cfg spp ys pv')"
  by (induction xs arbitrary: pv) (simp_all add: Let_def)

lemma judge_components_flat:
  "judge_components cfg spp cs pv = judge_probes cfg spp (concat (map probes cs)) pv"
proof (induction cs arbitrary: pv)
  case Nil
  show ?case by simp
next
  case (Cons c cs)
  show ?case
    by (cases "judge_probes cfg spp (probes c) pv") (simp_all add: judge_probes_append Cons.IH)
qed

lemma judge_probes_clear:
  "\<forall>q \<in> set ps. probe_measured cfg spp q \<and> probe_passes cfg spp q \<Longrightarrow>
     judge_probes cfg spp ps pv = Passed (if ps = [] then pv else Some (last ps))"
  by (induction ps arbitrary: pv) (simp_all add: Let_def probe_measured_def probe_passes_def)

lemma judge_probes_first:
  assumes "\<forall>q \<in> set pre. probe_measured cfg spp q \<and> probe_passes cfg spp q"
  shows "judge_probes cfg spp (pre @ p # post) pv =
     (if \<not> probe_measured cfg spp p then Verdict NEEDS_DATA
      else if \<not> probe_passes cfg spp p then Verdict JudgeResult_REJECTED
      else judge_probes cfg spp post (Some p))"
proof -
  have "judge_probes cfg spp (pre @ p # post) pv =
      judge_probes cfg spp (p # post) (if pre = [] then pv else Some (last pre))"
    using judge_probes_clear [OF assms] by (simp add: judge_probes_append)
  then show ?thesis
    by (simp add: Let_def probe_measured_def probe_passes_def)
qed

lemma reregister_probes_index:
  "reregister_probes ps pbc pbi pv = Inr (pbc', pbi', pv') \<Longrightarrow>
     pbi' = fold register_probe ps pbi"
proof (induction ps arbitrary: pbc pbi pv)
  case Nil
  then show ?case by simp
next
  case (Cons p ps)
  from Cons.prems obtain aliases where
    "reregister_probes ps (pbc(probe_component_id p \<mapsto> List.insert (probe_alias p) aliases))
       (register_probe p pbi) (Some p) = Inr (pbc', pbi', pv')"
    by (auto split: if_splits option.splits)
  from Cons.IH [OF this] show ?case by simp
qed

lemma reregister_components_index:
  "reregister_components cs pbc pbi pv = Inr (pbc', pbi') \<Longrightarrow>
     pbi' = fold register_probe (concat (map probes cs)) pbi"
proof (induction cs arbitrary: pbc pbi pv)
  case Nil
  then show ?case by simp
next
  case (Cons c cs)
  from Cons.prems obtain probe where pv: "pv = Some probe"
    by (cases pv) auto
  from Cons.prems pv obtain pbc1 pbi1 pv1 where
    inner: "reregister_probes (probes c) (pbc(probe_component_id probe \<mapsto> [])) pbi pv = Inr (pbc1, pbi1, pv1)"
    and rest: "reregister_components cs pbc1 pbi1 pv1 = Inr (pbc', pbi')"
    by (auto split: sum.splits)
  show ?case
    using reregister_probes_index [OF inner] Cons.IH [OF rest] by simp
qed

lemma dom_register_probe: "dom (register_probe p pbi) = insert (probe_alias p) (dom pbi)"
  by (simp add: register_probe_def)

lemma reregister_probes_same_component:
  assumes "\<forall>p \<in> set ps. probe_component_id p = k \<and> probe_alias p \<in> dom pbi"
      and "pbc k = Some aliases"
  shows "\<exists>pbc' pbi' pv'. reregister_probes ps pbc pbi pv = Inr (pbc', pbi', pv')
           \<and> (\<exists>aliases'. pbc' k = Some aliases'
                 \<and> set aliases' = set aliases \<union> probe_alias ` set ps)"
  using assms
proof (induction ps arbitrary: pbc pbi pv aliases)
  case Nil
  then show ?case by simp
next
  case (Cons p ps)
  have p: "probe_component_id p = k" "probe_alias p \<in> dom pbi" using Cons.prems(1) by auto
  have rest: "\<forall>q \<in> set ps. probe_component_id q = k \<and> probe_alias q \<in> dom (register_probe p pbi)"
    using Cons.prems(1) by (auto simp: dom_register_probe)
  have k: "(pbc(k \<mapsto> List.insert (probe_alias p) aliases)) k = Some (List.insert (probe_alias p) aliases)"
    by simp
  from Cons.IH [of "register_probe p pbi" "pbc(k \<mapsto> List.insert (probe_alias p) aliases)"
      "List.insert (probe_alias p) aliases" "Some p", OF rest k]
  obtain pbc' pbi' pv' aliases' where
    r: "reregister_probes ps (pbc(k \<mapsto> List.insert (probe_alias p) aliases))
          (register_probe p pbi) (Some p) = Inr (pbc', pbi', pv')"
       "pbc' k = Some aliases'"
       "set aliases' = set (List.insert (probe_alias p) aliases) \<union> probe_alias ` set ps"
    by blast
  have "reregister_probes (p # ps) pbc pbi pv = Inr (pbc', pbi', pv')"
    using p Cons.prems(2) r(1) by simp
  then show ?case using r(2,3) by auto
qed


lemma JudgeApp_unregistered:
  "app_name app \<notin> dom (applications agg) \<Longrightarrow> JudgeApp cfg agg app = Inr (NEEDS_DATA, agg)"
  by (simp add: JudgeApp_def)

lemma JudgeApp_first_problem:
  assumes "app_name app \<in> dom (applications agg)"
      and "all_probes app = pre @ probe # post"
      and "\<forall>q \<in> set pre. probe_clear cfg agg q"
  shows "\<not> probe_measured cfg (single_process_predictor agg) probe \<longrightarrow>
           JudgeApp cfg agg app = Inr (NEEDS_DATA, agg)"
    and "probe_measured cfg (single_process_predictor agg) probe \<longrightarrow>
         \<not> probe_passes cfg (single_process_predictor agg) probe \<longrightarrow>
           JudgeApp cfg agg app = Inr (JudgeResult_REJECTED, agg)"
proof -
  have pre: "\<forall>q \<in> set pre. probe_measured cfg (single_process_predictor agg) q
                \<and> probe_passes cfg (single_process_predictor agg) q"
    using assms(3) by (simp add: probe_clear_def)
  have scan: "judge_components cfg (single_process_predictor agg) (components app) None =
      (if \<not> probe_measured cfg (single_process_predictor agg) probe then Verdict NEEDS_DATA
       else if \<not> probe_passes cfg (single_process_predictor agg) probe then Verdict JudgeResult_REJECTED
       else judge_probes cfg (single_process_predictor agg) post (Some probe))"
    using judge_probes_first [OF pre, of probe post None] assms(2)
    by (simp add: judge_components_flat all_probes_def)
  show "\<not> probe_measured cfg (single_process_predictor agg) probe \<longrightarrow>
           JudgeApp cfg agg app = Inr (NEEDS_DATA, agg)"
    using assms(1) scan by (simp add: JudgeApp_def)
  show "probe_measured cfg (single_process_predictor agg) probe \<longrightarrow>
         \<not> probe_passes cfg (single_process_predictor agg) probe \<longrightarrow>
           JudgeApp cfg agg app = Inr (JudgeResult_REJECTED, agg)"
    using assms(1) scan by (simp add: JudgeApp_def)
qed

lemma judge_components_clear:
  assumes "\<forall>q \<in> set (all_probes app). probe_clear cfg agg q"
  shows "judge_components cfg (single_process_predictor agg) (components app) None =
           Passed (if all_probes app = [] then None else Some (last (all_probes app)))"
proof -
  have "\<forall>q \<in> set (concat (map probes (components app))).
          probe_measured cfg (single_process_predictor agg) q
        \<and> probe_passes cfg (single_process_predictor agg) q"
    using assms by (simp add: probe_clear_def all_probes_def)
  from judge_probes_clear [OF this, of None] show ?thesis
    by (simp add: judge_components_flat all_probes_def)
qed

lemma JudgeApp_measured:
  assumes "app_name app \<in> dom (applications agg)"
      and "\<forall>q \<in> set (all_probes app). probe_clear cfg agg q"
      and "\<not> is_complete app"
  shows "JudgeApp cfg agg app = Inr (MEASURED, agg)"
  using assms(1,3) judge_components_clear [OF assms(2)] by (simp add: JudgeApp_def)

lemma JudgeApp_accepted:
  assumes "app_name app \<in> dom (applications agg)"
      and "\<forall>q \<in> set (all_probes app). probe_clear cfg agg q"
      and "is_complete app"
      and "JudgeApp cfg agg app = Inr (result, agg')"
  shows "result = JudgeResult_ACCEPTED
       \<and> applications agg' = (applications agg)(app_name app \<mapsto> app)
       \<and> probes_by_id agg' = fold register_probe (all_probes app) (probes_by_id agg)"
proof -
  let ?pv = "if all_probes app = [] then None else Some (last (all_probes app))"
  from assms(1,3,4) judge_components_clear [OF assms(2)] obtain pbc pbi where
    r: "reregister_components (components app) (probes_by_component agg) (probes_by_id agg) ?pv
          = Inr (pbc, pbi)"
    and res: "result = JudgeResult_ACCEPTED"
    and agg': "agg' = agg\<lparr>applications := (applications agg)(app_name app \<mapsto> app),
                          probes_by_component := pbc, probes_by_id := pbi\<rparr>"
    by (auto simp: JudgeApp_def split: sum.splits)
  have "pbi = fold register_probe (all_probes app) (probes_by_id agg)"
    using reregister_components_index [OF r] by (simp add: all_probes_def)
  then show ?thesis using res agg' by simp
qed

lemma JudgeApp_single_component:
  assumes "app_name app \<in> dom (applications agg)"
      and "\<forall>q \<in> set (all_probes app). probe_clear cfg agg q"
      and "is_complete app"
      and "single_component_app agg app"
  shows "\<exists>agg' aliases. JudgeApp cfg agg app = Inr (JudgeResult_ACCEPTED, agg')
           \<and> probes_by_component agg' (component_id (hd (components app))) = Some aliases
           \<and> set aliases = probe_alias ` set (all_probes app)"
proof -
  from assms(4) obtain c where c: "components app = [c]" "probes c \<noteq> []"
    "\<forall>p \<in> set (probes c). probe_component_id p = component_id c
         \<and> probe_alias p \<in> dom (probes_by_id agg)"
    by (auto simp: single_component_app_def)
  have ap: "all_probes app = probes c" by (simp add: all_probes_def c(1))
  have scan: "judge_components cfg (single_process_predictor agg) (components app) None
      = Passed (Some (last (probes c)))"
    using judge_components_clear [OF assms(2)] c(2) by (simp add: ap)
  have k: "probe_component_id (last (probes c)) = component_id c"
    using c(2,3) by simp
  have start: "((probes_by_component agg)(component_id c \<mapsto> [])) (component_id c) = Some []"
    by simp
  from reregister_probes_same_component [of "probes c" "component_id c" "probes_by_id agg"
      "(probes_by_component agg)(component_id c \<mapsto> [])" "[]" "Some (last (probes c))",
      OF c(3) start]
  obtain pbc' pbi' pv' aliases where
    r: "reregister_probes (probes c) ((probes_by_component agg)(component_id c \<mapsto> []))
          (probes_by_id agg) (Some (last (probes c))) = Inr (pbc', pbi', pv')"
       "pbc' (component_id c) = Some aliases"
       "set aliases = set [] \<union> probe_alias ` set (probes c)"
    by blast
  have "JudgeApp cfg agg app =
      Inr (JudgeResult_ACCEPTED,
           agg\<lparr>applications := (applications agg)(app_name app \<mapsto> app),
               probes_by_component := pbc', probes_by_id := pbi'\<rparr>)"
    using assms(1,3) scan r(1) k by (simp add: JudgeApp_def c(1))
  then show ?thesis using r(2,3) by (simp add: c(1) ap)
qed

lemma example_app_probes: "all_probes example_app = [example_a1, example_a2]"
  by (simp add: all_probes_def example_app_def)

lemma example_app_registered:
  "app_name example_app \<in> dom (applications example_aggregator)"
  "app_name example_app \<in> dom (applications example_aggregator_measured)"
  by (simp_all add: example_app_def example_aggregator_def example_aggregator_measured_def)

lemma example_a1_fails:
  "probe_measured example_config (single_process_predictor example_aggregator) example_a1"
  "\<not> probe_passes example_config (single_process_predictor example_aggregator) example_a1"
  "\<not> probe_measured example_config (single_process_predictor example_aggregator) example_a2"
  by (simp_all add: probe_measured_def probe_passes_def example_config_def example_aggregator_def
      example_measurements_def example_a1_def example_a2_def)

lemma example_measured_clear:
  "probe_clear example_config example_aggregator_measured example_a1"
  "probe_clear example_config example_aggregator_measured example_a2"
  by (simp_all add: probe_clear_def probe_measured_def probe_passes_def example_config_def
      example_aggregator_measured_def example_aggregator_def example_measurements_def
      example_a1_def example_a2_def)

text \<open>
  Claim C1, as the claim states it: for a registered application, a probe without an
  isolation measurement makes the verdict NEEDS_DATA, and only otherwise a failed
  requirement makes it REJECTED. Here probe \<open>a2\<close> has no measurement, but the loop meets
  \<open>a1\<close> first, which is measured and fails its contract: the verdict is REJECTED.
\<close>

theorem JudgeApp_rejects_before_missing_measurement:
  "app_name example_app \<in> dom (applications example_aggregator)
   \<and> example_a2 \<in> set (all_probes example_app)
   \<and> \<not> probe_measured example_config (single_process_predictor example_aggregator) example_a2
   \<and> JudgeApp example_config example_aggregator example_app
       = Inr (JudgeResult_REJECTED, example_aggregator)
   \<and> JudgeResult_REJECTED \<noteq> NEEDS_DATA"
proof -
  have "JudgeApp example_config example_aggregator example_app
       = Inr (JudgeResult_REJECTED, example_aggregator)"
    by (simp add: JudgeApp_def Let_def example_app_def example_config_def example_aggregator_def
        example_measurements_def example_a1_def example_a2_def)
  then show ?thesis
    using example_app_registered(1) example_a1_fails(3) by (simp add: example_app_probes)
qed

text \<open>
  Claim C1, amended. \<open>JudgeApp\<close> returns NEEDS_DATA for an application that is not
  registered. For a registered one it visits the probes component by component, and the
  first probe that lacks an isolation measurement on the default hardware or fails a
  requirement decides: NEEDS_DATA if it lacks the measurement, REJECTED if it is measured
  and a requirement fails. If every probe is measured and passes, the verdict is MEASURED
  for an application that is not complete; for a complete one, whenever the call returns,
  it returns ACCEPTED with the application stored and every probe stored again in
  \<open>_probes_by_id\<close>, and it does return, with the component's set holding exactly the
  aliases of its probes, for an application of one component whose probes (at least one)
  carry that component's id and are already known in \<open>_probes_by_id\<close>.
\<close>

theorem JudgeApp_verdict:
  "(app_name app \<notin> dom (applications agg) \<longrightarrow> JudgeApp cfg agg app = Inr (NEEDS_DATA, agg))
   \<and> (app_name app \<in> dom (applications agg) \<longrightarrow>
        (\<forall>pre probe post.
            all_probes app = pre @ probe # post \<longrightarrow> (\<forall>q \<in> set pre. probe_clear cfg agg q) \<longrightarrow>
              (\<not> probe_measured cfg (single_process_predictor agg) probe \<longrightarrow>
                 JudgeApp cfg agg app = Inr (NEEDS_DATA, agg))
            \<and> (probe_measured cfg (single_process_predictor agg) probe \<longrightarrow>
               \<not> probe_passes cfg (single_process_predictor agg) probe \<longrightarrow>
                 JudgeApp cfg agg app = Inr (JudgeResult_REJECTED, agg)))
      \<and> ((\<forall>q \<in> set (all_probes app). probe_clear cfg agg q) \<longrightarrow>
            (\<not> is_complete app \<longrightarrow> JudgeApp cfg agg app = Inr (MEASURED, agg))
          \<and> (is_complete app \<longrightarrow>
               (\<forall>result agg'. JudgeApp cfg agg app = Inr (result, agg') \<longrightarrow>
                   result = JudgeResult_ACCEPTED
                 \<and> applications agg' = (applications agg)(app_name app \<mapsto> app)
                 \<and> probes_by_id agg' = fold register_probe (all_probes app) (probes_by_id agg))
             \<and> (single_component_app agg app \<longrightarrow>
                  (\<exists>agg' aliases. JudgeApp cfg agg app = Inr (JudgeResult_ACCEPTED, agg')
                     \<and> probes_by_component agg' (component_id (hd (components app))) = Some aliases
                     \<and> set aliases = probe_alias ` set (all_probes app))))))"
proof (intro conjI impI allI)
  assume "app_name app \<notin> dom (applications agg)"
  then show "JudgeApp cfg agg app = Inr (NEEDS_DATA, agg)" by (rule JudgeApp_unregistered)
next
  fix pre probe post
  assume "app_name app \<in> dom (applications agg)" "all_probes app = pre @ probe # post"
    "\<forall>q \<in> set pre. probe_clear cfg agg q"
    "\<not> probe_measured cfg (single_process_predictor agg) probe"
  then show "JudgeApp cfg agg app = Inr (NEEDS_DATA, agg)"
    using JudgeApp_first_problem(1) by blast
next
  fix pre probe post
  assume "app_name app \<in> dom (applications agg)" "all_probes app = pre @ probe # post"
    "\<forall>q \<in> set pre. probe_clear cfg agg q"
    "probe_measured cfg (single_process_predictor agg) probe"
    "\<not> probe_passes cfg (single_process_predictor agg) probe"
  then show "JudgeApp cfg agg app = Inr (JudgeResult_REJECTED, agg)"
    using JudgeApp_first_problem(2) by blast
next
  assume "app_name app \<in> dom (applications agg)"
    "\<forall>q \<in> set (all_probes app). probe_clear cfg agg q" "\<not> is_complete app"
  then show "JudgeApp cfg agg app = Inr (MEASURED, agg)" by (rule JudgeApp_measured)
next
  fix result agg'
  assume a: "app_name app \<in> dom (applications agg)"
    "\<forall>q \<in> set (all_probes app). probe_clear cfg agg q" "is_complete app"
    "JudgeApp cfg agg app = Inr (result, agg')"
  show "result = JudgeResult_ACCEPTED" using JudgeApp_accepted [OF a] by simp
  show "applications agg' = (applications agg)(app_name app \<mapsto> app)"
    using JudgeApp_accepted [OF a] by simp
  show "probes_by_id agg' = fold register_probe (all_probes app) (probes_by_id agg)"
    using JudgeApp_accepted [OF a] by simp
next
  assume "app_name app \<in> dom (applications agg)"
    "\<forall>q \<in> set (all_probes app). probe_clear cfg agg q" "is_complete app"
    "single_component_app agg app"
  then show "\<exists>agg' aliases. JudgeApp cfg agg app = Inr (JudgeResult_ACCEPTED, agg')
       \<and> probes_by_component agg' (component_id (hd (components app))) = Some aliases
       \<and> set aliases = probe_alias ` set (all_probes app)"
    by (rule JudgeApp_single_component)
qed


theorem JudgeApp_verdict_witness:
  "JudgeApp example_config example_aggregator example_app
     = Inr (JudgeResult_REJECTED, example_aggregator)
   \<and> (\<exists>agg' aliases.
         JudgeApp example_config example_aggregator_measured example_app
           = Inr (JudgeResult_ACCEPTED, agg')
       \<and> probes_by_component agg' ''A'' = Some aliases
       \<and> set aliases = {''a1'', ''a2''})"
proof -
  have split: "all_probes example_app = [] @ example_a1 # [example_a2]"
    by (simp add: example_app_probes)
  have none: "\<forall>q \<in> set []. probe_clear example_config example_aggregator q" by simp
  have first: "JudgeApp example_config example_aggregator example_app
     = Inr (JudgeResult_REJECTED, example_aggregator)"
    using JudgeApp_verdict [of example_app example_aggregator example_config]
      example_app_registered(1) split none example_a1_fails(1,2)
    by blast
  have clear: "\<forall>q \<in> set (all_probes example_app). probe_clear example_config example_aggregator_measured q"
    using example_measured_clear by (simp add: example_app_probes)
  have complete: "is_complete example_app" by (simp add: example_app_def)
  have single: "single_component_app example_aggregator_measured example_app"
    by (simp add: single_component_app_def example_app_def example_aggregator_measured_def
        example_aggregator_def example_a1_def example_a2_def)
  have "\<exists>agg' aliases.
         JudgeApp example_config example_aggregator_measured example_app
           = Inr (JudgeResult_ACCEPTED, agg')
       \<and> probes_by_component agg' (component_id (hd (components example_app))) = Some aliases
       \<and> set aliases = probe_alias ` set (all_probes example_app)"
    using JudgeApp_verdict [of example_app example_aggregator_measured example_config]
      example_app_registered(2) clear complete single
    by blast
  then have second: "\<exists>agg' aliases.
         JudgeApp example_config example_aggregator_measured example_app
           = Inr (JudgeResult_ACCEPTED, agg')
       \<and> probes_by_component agg' ''A'' = Some aliases
       \<and> set aliases = {''a1'', ''a2''}"
  proof -
    have k: "component_id (hd (components example_app)) = ''A''"
      by (simp add: example_app_def)
    have a: "probe_alias ` set (all_probes example_app) = {''a1'', ''a2''}"
      by (simp add: example_app_probes example_a1_def example_a2_def)
    show ?thesis using \<open>\<exists>agg' aliases. _\<close> unfolding k a .
  qed
  show ?thesis using first second by blast
qed

end
